theory Spec2Isabelle
  imports Main "HOL-Library.Sublist"
begin

section \<open>The watch loop of love-ts (src/watch.ts)\<close>

text \<open>
  The module \<^verbatim>\<open>watch.ts\<close> installs a callback \<^verbatim>\<open>afterProgramCreate\<close> on a TypeScript
  watch host. Every compilation pass of the session is one call of that callback. The
  callback talks to the outside world only through host calls (\<^verbatim>\<open>ts.sys.writeFile\<close>,
  \<^verbatim>\<open>ts.sys.readFile\<close>, \<^verbatim>\<open>tstl.transpile\<close>, the diagnostic reporter, the watch status
  reporter, \<^verbatim>\<open>spawn\<close>, \<^verbatim>\<open>ts.sys.exit\<close>, \<^verbatim>\<open>rimraf\<close>). The embedding below makes each host
  call an element of an effect log, in the order the code performs the calls, and threads
  the mutable variables of the module and of the closure through an explicit state record.
  Host calls are taken to return normally; what they return is a parameter of the model.
\<close>

subsection \<open>Values and diagnostics\<close>

text \<open>
  A variable of TypeScript type \<^verbatim>\<open>string\<close> holds a string or \<^verbatim>\<open>undefined\<close> at run time
  (\<^verbatim>\<open>let lumeContent: string;\<close> starts undefined, \<^verbatim>\<open>ts.sys.readFile\<close> returns undefined for
  a file it cannot read). \<open>truthy\<close> is JavaScript's conversion to boolean on such values.
\<close>

datatype jsval = Undefined | Str string

fun truthy :: "jsval \<Rightarrow> bool" where
  "truthy Undefined = False"
| "truthy (Str s) = (s \<noteq> [])"

datatype DiagnosticCategory = Warning | Error | Suggestion | Message

record Diagnostic =
  category :: DiagnosticCategory
  code :: int
  fileName :: "string option"
  start :: "nat option"
  messageText :: string

text \<open>An output file of the transpiler: its name (a path) and its text.\<close>

type_synonym OutputFile = "string \<times> string"

subsection \<open>Paths\<close>

text \<open>
  \<^verbatim>\<open>path.basename\<close> and \<^verbatim>\<open>path.join\<close> are functions of Node's \<^verbatim>\<open>path\<close> module, modelled
  here in their POSIX flavour. \<open>path_basename\<close> drops trailing separators and returns what
  follows the last remaining separator. \<open>path_join\<close> puts a separator between its non-empty
  arguments and normalises the result: empty and \<^verbatim>\<open>.\<close> segments disappear, a \<^verbatim>\<open>..\<close> segment
  removes the segment before it.
\<close>

definition path_basename :: "string \<Rightarrow> string" where
  "path_basename p =
     rev (takeWhile (\<lambda>c. c \<noteq> CHR ''/'') (dropWhile (\<lambda>c. c = CHR ''/'') (rev p)))"

fun segments :: "string \<Rightarrow> string list" where
  "segments [] = [] # []"
| "segments (c # cs) =
     (if c = CHR ''/'' then [] # segments cs
      else (case segments cs of [] \<Rightarrow> [c] # [] | s # ss \<Rightarrow> (c # s) # ss))"

fun normalizeSegment :: "bool \<Rightarrow> string list \<Rightarrow> string \<Rightarrow> string list" where
  "normalizeSegment allowAboveRoot res seg =
     (if seg = [] \<or> seg = ''.'' then res
      else if seg = ''..'' then
        (if res \<noteq> [] \<and> last res \<noteq> ''..'' then butlast res
         else if allowAboveRoot then res @ [''..''] else res)
      else res @ [seg])"

fun unsegments :: "string list \<Rightarrow> string" where
  "unsegments [] = []"
| "unsegments [s] = s"
| "unsegments (s # t # ss) = s @ ''/'' @ unsegments (t # ss)"

definition normalizeString :: "string \<Rightarrow> bool \<Rightarrow> string" where
  "normalizeString path allowAboveRoot =
     unsegments (foldl (normalizeSegment allowAboveRoot) [] (segments path))"

definition path_normalize :: "string \<Rightarrow> string" where
  "path_normalize path =
     (if path = [] then ''.''
      else let isAbsolute = (hd path = CHR ''/'');
               trailingSeparator = (last path = CHR ''/'');
               p = normalizeString path (\<not> isAbsolute)
           in if p = [] then (if isAbsolute then ''/'' else if trailingSeparator then ''./'' else ''.'')
              else (if isAbsolute then ''/'' else []) @ p @ (if trailingSeparator then ''/'' else []))"

definition path_join :: "string \<Rightarrow> string \<Rightarrow> string" where
  "path_join a b =
     (if a = [] \<and> b = [] then ''.''
      else if a = [] then path_normalize b
      else if b = [] then path_normalize a
      else path_normalize (a @ ''/'' @ b))"

subsection \<open>The injected blocks\<close>

definition luaConfHead :: string where
  \<open>luaConfHead = ''\<newline>package.path = package.path .. ";node_modules/?/init.lua"\<newline>package.path = package.path .. ";node_modules/?/?.lua"\<newline>''\<close>

definition luaMainTail :: string where
  \<open>luaMainTail = ''\<newline>local oldUpdate = love.update\<newline>function love.update(delta)\<newline>    if oldUpdate then\<newline>        oldUpdate(delta)\<newline>    end\<newline>    require("lurker").update()\<newline>end\<newline>''\<close>


text \<open>
  The first line of the tail block after its leading newline. It occurs once in the tail
  block and is used below to say that a text does not already hold the block.
\<close>

definition tailMarker :: string where
  "tailMarker = ''local oldUpdate = love.update''"

subsection \<open>Compiler options, programs and the effect log\<close>

text \<open>
  Of the compiler options only the fields that \<^verbatim>\<open>watch.ts\<close> reads are kept. \<open>outDir\<close> is
  a string: \<^verbatim>\<open>transpileExecuteAndWatch\<close> assigns the temporary directory to it before the
  watch is created. \<open>pretty\<close> is the boolean when the option is set. \<open>configFile\<close> is the
  identity of the loaded configuration file (the key of the \<^verbatim>\<open>WeakMap\<close>).
\<close>

record CompilerOptions =
  outDir :: string
  pretty :: "bool option"
  configFile :: "nat option"
  configFilePath :: jsval

record ParsedCommandLine =
  options :: CompilerOptions
  errors :: "Diagnostic list"

text \<open>
  \<^verbatim>\<open>currentFile.affected\<close> is a source file (it has a \<^verbatim>\<open>fileName\<close>) or a program, whose
  \<^verbatim>\<open>getSourceFiles()\<close> gives its source files. A source file is identified by its name.
\<close>

datatype affected = SourceFile string | Program "string list"

type_synonym TranspiledFile = "string \<times> string"

text \<open>
  What one call of the callback receives: the builder program, with what its methods and
  the transpiler return on it. \<open>affectedQueue\<close> holds the units that successive calls of
  \<^verbatim>\<open>getSemanticDiagnosticsOfNextAffectedFile\<close> return before the method returns undefined.
  \<open>parsedConfigFile\<close> is what parsing this program's configuration file gives.
\<close>

record BuilderProgram =
  compilerOptions :: CompilerOptions
  parsedConfigFile :: ParsedCommandLine
  affectedQueue :: "affected list"
  optionsDiagnostics :: "Diagnostic list"
  syntacticDiagnostics :: "Diagnostic list"
  globalDiagnostics :: "Diagnostic list"
  semanticDiagnostics :: "Diagnostic list"
  transpile :: "string list option \<Rightarrow> Diagnostic list \<times> TranspiledFile list"

text \<open>
  What the session's surroundings give: whether the output is a terminal
  (\<^verbatim>\<open>ts.sys.writeOutputIsTTY\<close> may be missing), the two bundled library files as
  \<^verbatim>\<open>ts.sys.readFile\<close> returns them and their resolved paths, and the two pure library
  functions \<^verbatim>\<open>ts.sortAndDeduplicateDiagnostics\<close> and \<^verbatim>\<open>tstl.emitTranspiledFiles\<close>.
\<close>

record Host =
  writeOutputIsTTY :: "bool option"
  lumePath :: string
  lurkerPath :: string
  lumeFile :: jsval
  lurkerFile :: jsval
  sortAndDeduplicateDiagnostics :: "Diagnostic list \<Rightarrow> Diagnostic list"
  emitTranspiledFiles :: "CompilerOptions \<Rightarrow> TranspiledFile list \<Rightarrow> OutputFile list"

datatype stream = Stdin | Stdout | Stderr

text \<open>
  The host calls. \<open>ReportDiagnostic p d\<close> is a call, on diagnostic \<open>d\<close>, of a reporter made by
  \<^verbatim>\<open>tstl.createDiagnosticReporter(p)\<close>; \<open>WatchStatusChange p n\<close> is a call, on
  \<^verbatim>\<open>watchErrorSummary(n)\<close>, of the status reporter made with pretty flag \<open>p\<close>.
\<close>

datatype effect =
    Transpile "string list option"
  | WriteFile string jsval
  | ReadFile string
  | ReportDiagnostic bool Diagnostic
  | WatchStatusChange bool nat
  | Spawn string "string list" "stream list"
  | Exit int
  | Rimraf string

text \<open>
  The mutable variables: \<open>fullRecompile\<close>, \<open>loveIsRunning\<close> and \<open>configFileMap\<close> of the
  closure made by \<^verbatim>\<open>updateWatchCompilationHost\<close>; \<open>lumeContent\<close>, \<open>lurkerContent\<close> and
  \<open>reportDiagnostic\<close> (the pretty flag its reporter was made with) of the module.
\<close>

record State =
  fullRecompile :: bool
  loveIsRunning :: bool
  configFileMap :: "nat \<rightharpoonup> ParsedCommandLine"
  lumeContent :: jsval
  lurkerContent :: jsval
  reportDiagnostic :: bool

definition initialState :: State where
  "initialState =
     \<lparr>fullRecompile = True, loveIsRunning = False, configFileMap = Map.empty,
      lumeContent = Undefined, lurkerContent = Undefined, reportDiagnostic = False\<rparr>"

subsection \<open>emitFiles\<close>

text \<open>The body of the \<^verbatim>\<open>forEach\<close>: one write per output file, chosen by the base name.\<close>

fun emitOutputFiles :: "OutputFile list \<Rightarrow> bool \<Rightarrow> effect list \<times> bool" where
  "emitOutputFiles [] wroteConf = ([], wroteConf)"
| "emitOutputFiles ((name, text) # rest) wroteConf =
     (if path_basename name = ''conf.lua'' then
        (let (es, w) = emitOutputFiles rest True
         in (WriteFile name (Str (luaConfHead @ ''\<newline>'' @ text)) # es, w))
      else if path_basename name = ''main.lua'' then
        (let (es, w) = emitOutputFiles rest wroteConf
         in (WriteFile name (Str (text @ ''\<newline>'' @ luaMainTail)) # es, w))
      else
        (let (es, w) = emitOutputFiles rest wroteConf
         in (WriteFile name (Str text) # es, w)))"

definition emitFiles :: "Host \<Rightarrow> OutputFile list \<Rightarrow> CompilerOptions \<Rightarrow> State \<Rightarrow> effect list \<times> State" where
  "emitFiles host outputFiles opts st =
     (let (written, wroteConf) = emitOutputFiles outputFiles False;
          conf = (if \<not> wroteConf
                  then [WriteFile (path_join (outDir opts) ''conf.lua'') (Str luaConfHead)]
                  else [])
      in if \<not> truthy (lumeContent st) \<and> \<not> truthy (lurkerContent st) then
           (written @ conf @
              [ReadFile (lumePath host), ReadFile (lurkerPath host),
               WriteFile (path_join (outDir opts) ''lume.lua'') (lumeFile host),
               WriteFile (path_join (outDir opts) ''lurker.lua'') (lurkerFile host)],
            st\<lparr>lumeContent := lumeFile host, lurkerContent := lurkerFile host\<rparr>)
         else (written @ conf, st))"

text \<open>The files as they are after the writes of a log, from the files before it.\<close>

fun filesAfter :: "effect list \<Rightarrow> (string \<rightharpoonup> jsval) \<Rightarrow> (string \<rightharpoonup> jsval)" where
  "filesAfter [] fs = fs"
| "filesAfter (WriteFile p d # es) fs = filesAfter es (fs(p \<mapsto> d))"
| "filesAfter (e # es) fs = filesAfter es fs"

text \<open>The number of positions of a text at which a pattern starts.\<close>

fun occurrences :: "string \<Rightarrow> string \<Rightarrow> nat" where
  "occurrences pat [] = (if pat = [] then 1 else 0)"
| "occurrences pat (c # cs) = (if prefix pat (c # cs) then 1 else 0) + occurrences pat cs"

subsection \<open>The reporters\<close>

definition shouldBePretty :: "Host \<Rightarrow> CompilerOptions option \<Rightarrow> bool" where
  "shouldBePretty host opts =
     (let tty = (case writeOutputIsTTY host of None \<Rightarrow> False | Some b \<Rightarrow> b)
      in case opts of
           None \<Rightarrow> tty
         | Some os \<Rightarrow> (case pretty os of None \<Rightarrow> tty | Some b \<Rightarrow> b))"

definition createWatchStatusReporter :: "Host \<Rightarrow> CompilerOptions option \<Rightarrow> bool" where
  "createWatchStatusReporter host opts = shouldBePretty host opts"

definition updateReportDiagnostic :: "Host \<Rightarrow> CompilerOptions option \<Rightarrow> State \<Rightarrow> State" where
  "updateReportDiagnostic host opts st = st\<lparr>reportDiagnostic := shouldBePretty host opts\<rparr>"

subsection \<open>afterProgramCreate\<close>

text \<open>
  Lines 113 to 134: the parsed configuration file is looked up in \<open>configFileMap\<close> under
  the identity of the configuration file and stored there when absent; its options are
  assigned over the program's options and its errors are the configuration diagnostics.
\<close>

definition Object_assign :: "CompilerOptions \<Rightarrow> CompilerOptions \<Rightarrow> CompilerOptions" where
  "Object_assign target source =
     \<lparr>outDir = outDir source,
      pretty = (case pretty source of None \<Rightarrow> pretty target | Some b \<Rightarrow> Some b),
      configFile = (case configFile source of None \<Rightarrow> configFile target | Some c \<Rightarrow> Some c),
      configFilePath = (case configFilePath source of Undefined \<Rightarrow> configFilePath target | Str p \<Rightarrow> Str p)\<rparr>"

definition readConfig ::
  "BuilderProgram \<Rightarrow> State \<Rightarrow> (nat \<rightharpoonup> ParsedCommandLine) \<times> CompilerOptions \<times> Diagnostic list" where
  "readConfig builderProgram st =
     (let opts = compilerOptions builderProgram
      in case configFile opts of
           None \<Rightarrow> (configFileMap st, opts, [])
         | Some cf \<Rightarrow>
             if truthy (configFilePath opts) then
               (case configFileMap st cf of
                  None \<Rightarrow>
                    (let parsed = parsedConfigFile builderProgram
                     in ((configFileMap st)(cf \<mapsto> parsed),
                         Object_assign opts (options parsed), errors parsed))
                | Some parsed \<Rightarrow>
                    (configFileMap st, Object_assign opts (options parsed), errors parsed))
             else (configFileMap st, opts, []))"

text \<open>Lines 139 to 148: the loop that asks the builder for the next affected unit.\<close>

fun getSemanticDiagnosticsOfNextAffectedFile :: "affected list \<Rightarrow> (affected \<times> affected list) option" where
  "getSemanticDiagnosticsOfNextAffectedFile [] = None"
| "getSemanticDiagnosticsOfNextAffectedFile (a # queue) = Some (a, queue)"

function collectAffected :: "string list \<Rightarrow> affected list \<Rightarrow> string list" where
  "collectAffected sourceFiles queue =
     (case getSemanticDiagnosticsOfNextAffectedFile queue of
        None \<Rightarrow> sourceFiles
      | Some (SourceFile f, queue') \<Rightarrow> collectAffected (sourceFiles @ [f]) queue'
      | Some (Program fs, queue') \<Rightarrow> collectAffected (sourceFiles @ fs) queue')"
  by pat_completeness auto
termination
  by (relation "measure (\<lambda>(sourceFiles, queue). length queue)")
     (auto elim: getSemanticDiagnosticsOfNextAffectedFile.elims)

declare collectAffected.simps [simp del]

definition passSourceFiles :: "BuilderProgram \<Rightarrow> State \<Rightarrow> string list option" where
  "passSourceFiles builderProgram st =
     (if \<not> fullRecompile st then Some (collectAffected [] (affectedQueue builderProgram))
      else None)"

definition passOutputFiles :: "Host \<Rightarrow> BuilderProgram \<Rightarrow> State \<Rightarrow> OutputFile list" where
  "passOutputFiles host builderProgram st =
     (let (cfm, opts, configFileParsingDiagnostics) = readConfig builderProgram st;
          (emitDiagnostics, transpiledFiles) =
             transpile builderProgram (passSourceFiles builderProgram st)
      in emitTranspiledFiles host opts transpiledFiles)"

definition passDiagnostics :: "Host \<Rightarrow> BuilderProgram \<Rightarrow> State \<Rightarrow> Diagnostic list" where
  "passDiagnostics host builderProgram st =
     (let (cfm, opts, configFileParsingDiagnostics) = readConfig builderProgram st;
          (emitDiagnostics, transpiledFiles) =
             transpile builderProgram (passSourceFiles builderProgram st)
      in sortAndDeduplicateDiagnostics host
           (configFileParsingDiagnostics @
            optionsDiagnostics builderProgram @
            syntacticDiagnostics builderProgram @
            globalDiagnostics builderProgram @
            semanticDiagnostics builderProgram @
            emitDiagnostics))"

definition afterProgramCreate ::
  "Host \<Rightarrow> CompilerOptions \<Rightarrow> BuilderProgram \<Rightarrow> State \<Rightarrow> effect list \<times> State" where
  "afterProgramCreate host optionsToExtend builderProgram st =
     (let (cfm, opts, configFileParsingDiagnostics) = readConfig builderProgram st;
          sourceFiles = passSourceFiles builderProgram st;
          (written, st1) = emitFiles host (passOutputFiles host builderProgram st) opts st;
          diagnostics = passDiagnostics host builderProgram st;
          errs = filter (\<lambda>d. category d = Error) diagnostics;
          (started, running) =
             (if \<not> loveIsRunning st
              then ([Spawn ''lovec'' [outDir optionsToExtend] [Stdin, Stdout, Stderr]], True)
              else ([], loveIsRunning st))
      in ([Transpile sourceFiles] @ written @
          map (ReportDiagnostic (reportDiagnostic st1)) diagnostics @
          [WatchStatusChange (createWatchStatusReporter host (Some optionsToExtend)) (length errs)] @
          started,
          st1\<lparr>fullRecompile := (length errs > 0), loveIsRunning := running, configFileMap := cfm\<rparr>))"

text \<open>
  The handler of the child's \<^verbatim>\<open>close\<close> event calls \<^verbatim>\<open>ts.sys.exit(0)\<close> and then
  \<^verbatim>\<open>rimraf(outDir, {}, () => {})\<close>. \<^verbatim>\<open>ts.sys.exit\<close> ends the process when it is called, so of
  a sequence of host calls only those up to the first exit are performed. The handler
  declares no parameter: the child's exit code is not looked at.
\<close>

fun performed :: "effect list \<Rightarrow> effect list" where
  "performed [] = []"
| "performed (Exit c # es) = [Exit c]"
| "performed (e # es) = e # performed es"

definition childClosed :: "CompilerOptions \<Rightarrow> int option \<Rightarrow> effect list" where
  "childClosed optionsToExtend exitCode =
     performed [Exit 0, Rimraf (outDir optionsToExtend)]"

subsection \<open>A session\<close>

text \<open>
  A session is the closure state at its initial values and one call of the callback per
  builder program the watch hands over; the result is the effect log of each pass.
\<close>

fun runPasses :: "Host \<Rightarrow> CompilerOptions \<Rightarrow> State \<Rightarrow> BuilderProgram list \<Rightarrow> effect list list" where
  "runPasses host optionsToExtend st [] = []"
| "runPasses host optionsToExtend st (bp # bps) =
     (let (es, st') = afterProgramCreate host optionsToExtend bp st
      in es # runPasses host optionsToExtend st' bps)"

definition watchSession :: "Host \<Rightarrow> CompilerOptions \<Rightarrow> BuilderProgram list \<Rightarrow> effect list list" where
  "watchSession host optionsToExtend bps = runPasses host optionsToExtend initialState bps"

text \<open>Readings of a pass's log.\<close>

datatype mode = Full | Incremental

fun modes :: "effect list \<Rightarrow> mode list" where
  "modes [] = []"
| "modes (Transpile None # es) = Full # modes es"
| "modes (Transpile (Some sf) # es) = Incremental # modes es"
| "modes (e # es) = modes es"

fun reported :: "effect list \<Rightarrow> Diagnostic list" where
  "reported [] = []"
| "reported (ReportDiagnostic p d # es) = d # reported es"
| "reported (e # es) = reported es"

fun summaries :: "effect list \<Rightarrow> nat list" where
  "summaries [] = []"
| "summaries (WatchStatusChange p n # es) = n # summaries es"
| "summaries (e # es) = summaries es"

fun isWrite :: "effect \<Rightarrow> bool" where
  "isWrite (WriteFile p d) = True"
| "isWrite e = False"

fun isSpawn :: "effect \<Rightarrow> bool" where
  "isSpawn (Spawn c args io) = True"
| "isSpawn e = False"

fun isRead :: "effect \<Rightarrow> bool" where
  "isRead (ReadFile p) = True"
| "isRead e = False"

fun isWriteNamed :: "string \<Rightarrow> effect \<Rightarrow> bool" where
  "isWriteNamed n (WriteFile p d) = (path_basename p = n)"
| "isWriteNamed n e = False"

fun transpileCalls :: "effect list \<Rightarrow> string list option list" where
  "transpileCalls [] = []"
| "transpileCalls (Transpile sf # es) = sf # transpileCalls es"
| "transpileCalls (e # es) = transpileCalls es"

subsection \<open>Descriptions used in the statements\<close>

text \<open>
  The options in force in a pass and its configuration diagnostics, as \<open>readConfig\<close>
  gives them.
\<close>

definition passOptions :: "BuilderProgram \<Rightarrow> State \<Rightarrow> CompilerOptions" where
  "passOptions builderProgram st = fst (snd (readConfig builderProgram st))"

definition configFileParsingDiagnostics :: "BuilderProgram \<Rightarrow> State \<Rightarrow> Diagnostic list" where
  "configFileParsingDiagnostics builderProgram st = snd (snd (readConfig builderProgram st))"

text \<open>
  What an affected unit stands for: a source file stands for itself, a program for all
  of its source files.
\<close>

fun unitFiles :: "affected \<Rightarrow> string list" where
  "unitFiles (SourceFile f) = [f]"
| "unitFiles (Program fs) = fs"

text \<open>The text written for an output file, and the write itself.\<close>

definition wrapped :: "string \<Rightarrow> string \<Rightarrow> string" where
  "wrapped name t =
     (if path_basename name = ''conf.lua'' then luaConfHead @ ''\<newline>'' @ t
      else if path_basename name = ''main.lua'' then t @ ''\<newline>'' @ luaMainTail
      else t)"

definition emitted :: "OutputFile \<Rightarrow> effect" where
  "emitted f = WriteFile (fst f) (Str (wrapped (fst f) (snd f)))"

text \<open>The four host calls of the guarded block that copies the support files.\<close>

definition shims :: "Host \<Rightarrow> CompilerOptions \<Rightarrow> effect list" where
  "shims host opts =
     [ReadFile (lumePath host), ReadFile (lurkerPath host),
      WriteFile (path_join (outDir opts) ''lume.lua'') (lumeFile host),
      WriteFile (path_join (outDir opts) ''lurker.lua'') (lurkerFile host)]"

text \<open>The guard of that block is false exactly when one of the two contents is truthy.\<close>

definition loaded :: "State \<Rightarrow> bool" where
  "loaded st = (truthy (lumeContent st) \<or> truthy (lurkerContent st))"

text \<open>A file name with no separator in it that is neither \<^verbatim>\<open>.\<close> nor \<^verbatim>\<open>..\<close>.\<close>

definition plainName :: "string \<Rightarrow> bool" where
  "plainName f = (f \<noteq> [] \<and> CHR ''/'' \<notin> set f \<and> f \<noteq> ''.'' \<and> f \<noteq> ''..'')"

subsection \<open>A concrete session\<close>

text \<open>
  A host, an option set and three programs on which the statements below are evaluated:
  one with an error and no \<^verbatim>\<open>conf.lua\<close>, one without errors that emits \<^verbatim>\<open>conf.lua\<close> and
  \<^verbatim>\<open>main.lua\<close>, and one that emits neither at the top of the output directory.
\<close>

definition demoOptions :: CompilerOptions where
  "demoOptions = \<lparr>outDir = ''/tmp/out'', pretty = Some True, configFile = None, configFilePath = Undefined\<rparr>"

definition demoError :: Diagnostic where
  "demoError = \<lparr>category = Error, code = 2304, fileName = Some ''main.ts'', start = Some 0,
                 messageText = ''Cannot find name''\<rparr>"

definition demoWarning :: Diagnostic where
  "demoWarning = \<lparr>category = Warning, code = 6133, fileName = Some ''main.ts'', start = Some 4,
                   messageText = ''Declared but never used''\<rparr>"

definition demoHost :: Host where
  "demoHost =
     \<lparr>writeOutputIsTTY = Some True,
      lumePath = ''/opt/love-ts/lib/lume.lua'',
      lurkerPath = ''/opt/love-ts/lib/lurker.lua'',
      lumeFile = Str ''-- lume'',
      lurkerFile = Str ''-- lurker'',
      sortAndDeduplicateDiagnostics = remdups,
      emitTranspiledFiles = (\<lambda>os tfs. map (\<lambda>tf. (outDir os @ ''/'' @ fst tf, snd tf)) tfs)\<rparr>"

definition errProgram :: BuilderProgram where
  "errProgram =
     \<lparr>compilerOptions = demoOptions,
      parsedConfigFile = \<lparr>options = demoOptions, errors = []\<rparr>,
      affectedQueue = [SourceFile ''main.ts'', Program [''a.ts'', ''b.ts'']],
      optionsDiagnostics = [],
      syntacticDiagnostics = [demoError],
      globalDiagnostics = [],
      semanticDiagnostics = [demoError, demoWarning],
      transpile = (\<lambda>sf. ([], [(''main.lua'', ''print(1)'')]))\<rparr>"

definition okProgram :: BuilderProgram where
  "okProgram =
     \<lparr>compilerOptions = demoOptions,
      parsedConfigFile = \<lparr>options = demoOptions, errors = []\<rparr>,
      affectedQueue = [SourceFile ''main.ts''],
      optionsDiagnostics = [],
      syntacticDiagnostics = [],
      globalDiagnostics = [],
      semanticDiagnostics = [demoWarning],
      transpile = (\<lambda>sf. ([], [(''conf.lua'', ''x = 1''), (''main.lua'', ''print(1)'')]))\<rparr>"

definition libProgram :: BuilderProgram where
  "libProgram =
     \<lparr>compilerOptions = demoOptions,
      parsedConfigFile = \<lparr>options = demoOptions, errors = []\<rparr>,
      affectedQueue = [],
      optionsDiagnostics = [],
      syntacticDiagnostics = [],
      globalDiagnostics = [],
      semanticDiagnostics = [],
      transpile = (\<lambda>sf. ([], [(''util.lua'', ''return {}''), (''sub/conf.lua'', ''y = 2'')]))\<rparr>"

section \<open>Properties\<close>

subsection \<open>Base names of joined paths\<close>

lemma segments_nonempty: "segments p \<noteq> []"
  by (cases p) (auto split: list.splits)

lemma segments_append_sep: "segments (a @ CHR ''/'' # b) = segments a @ segments b"
proof (induction a)
  case Nil
  then show ?case by simp
next
  case (Cons c cs)
  then show ?case
    using segments_nonempty [of cs] by (cases "segments cs") auto
qed

lemma segments_plain: "CHR ''/'' \<notin> set f \<Longrightarrow> segments f = [f]"
  by (induction f) auto

lemma unsegments_snoc:
  "unsegments (st @ [f]) = (if st = [] then f else unsegments st @ CHR ''/'' # f)"
  by (induction st rule: unsegments.induct) auto

lemma basename_plain: "CHR ''/'' \<notin> set f \<Longrightarrow> path_basename f = f"
proof -
  assume a: "CHR ''/'' \<notin> set f"
  then have d: "dropWhile (\<lambda>c. c = CHR ''/'') (rev f) = rev f"
    by (cases "rev f") auto
  from a have t: "takeWhile (\<lambda>c. c \<noteq> CHR ''/'') (rev f) = rev f"
    by (auto simp: takeWhile_eq_all_conv)
  show ?thesis unfolding path_basename_def d t by simp
qed

lemma basename_after_sep:
  assumes "CHR ''/'' \<notin> set f" "f \<noteq> []"
  shows "path_basename (pre @ CHR ''/'' # f) = f"
proof -
  from assms have d: "dropWhile (\<lambda>c. c = CHR ''/'') (rev f @ CHR ''/'' # rev pre) = rev f @ CHR ''/'' # rev pre"
    by (cases "rev f") auto
  from assms have t: "takeWhile (\<lambda>c. c \<noteq> CHR ''/'') (rev f @ CHR ''/'' # rev pre) = rev f"
    by (subst takeWhile_append2) auto
  show ?thesis unfolding path_basename_def rev_append rev.simps append_assoc append.simps rev_rev_ident d t by simp
qed

lemma normalize_ends_plain:
  assumes "plainName f"
  shows "path_normalize (d @ CHR ''/'' # f) = f \<or> (\<exists>pre. path_normalize (d @ CHR ''/'' # f) = pre @ CHR ''/'' # f)"
proof -
  let ?path = "d @ CHR ''/'' # f"
  let ?abs = "hd ?path = CHR ''/''"
  let ?st = "foldl (normalizeSegment (\<not> ?abs)) [] (segments d)"
  from assms have f: "f \<noteq> []" "CHR ''/'' \<notin> set f" "f \<noteq> ''.''" "f \<noteq> ''..''"
    by (auto simp: plainName_def)
  have seg: "segments ?path = segments d @ [f]"
    using f by (simp add: segments_append_sep segments_plain)
  have st: "foldl (normalizeSegment (\<not> ?abs)) [] (segments ?path) = ?st @ [f]"
    unfolding seg using f by simp
  have ns: "normalizeString ?path (\<not> ?abs) = unsegments (?st @ [f])"
    unfolding normalizeString_def st ..
  have ne: "unsegments (?st @ [f]) \<noteq> []"
    using f by (simp add: unsegments_snoc)
  have tr: "last ?path \<noteq> CHR ''/''"
    using f by (auto simp: last_in_set dest!: last_in_set)
  have "path_normalize ?path = (if ?abs then ''/'' else []) @ unsegments (?st @ [f])"
    using ne tr by (simp add: path_normalize_def ns Let_def)
  then show ?thesis
    by (cases "?st = []"; cases ?abs) (auto simp: unsegments_snoc)
qed

lemma basename_join_plain:
  assumes "plainName f"
  shows "path_basename (path_join d f) = f"
proof (cases "d = []")
  case True
  from assms have f: "f \<noteq> []" "CHR ''/'' \<notin> set f" "f \<noteq> ''.''" "f \<noteq> ''..''"
    by (auto simp: plainName_def)
  have "hd f \<noteq> CHR ''/''" "last f \<noteq> CHR ''/''"
    using f by (auto dest: hd_in_set last_in_set)
  then have "path_normalize f = f"
    using f by (simp add: path_normalize_def normalizeString_def segments_plain Let_def)
  then show ?thesis
    using True f by (simp add: path_join_def basename_plain)
next
  case False
  from assms have f: "f \<noteq> []" "CHR ''/'' \<notin> set f"
    by (auto simp: plainName_def)
  have "path_join d f = path_normalize (d @ CHR ''/'' # f)"
    using False f by (simp add: path_join_def)
  then show ?thesis
    using normalize_ends_plain [OF assms, of d] f
    by (auto simp: basename_plain basename_after_sep)
qed

subsection \<open>The concrete session, evaluated\<close>

lemmas demo_defs = demoOptions_def demoError_def demoWarning_def demoHost_def errProgram_def
  okProgram_def libProgram_def

lemma demo_outputs:
  "passOutputFiles demoHost errProgram st = [(''/tmp/out/main.lua'', ''print(1)'')]"
  "passOutputFiles demoHost okProgram st =
     [(''/tmp/out/conf.lua'', ''x = 1''), (''/tmp/out/main.lua'', ''print(1)'')]"
  "passOutputFiles demoHost libProgram st =
     [(''/tmp/out/util.lua'', ''return {}''), (''/tmp/out/sub/conf.lua'', ''y = 2'')]"
  by (simp_all add: passOutputFiles_def readConfig_def demo_defs)

lemma demo_diagnostics:
  "passDiagnostics demoHost errProgram st = [demoError, demoWarning]"
  "passDiagnostics demoHost okProgram st = [demoWarning]"
  "passDiagnostics demoHost libProgram st = []"
  by (simp_all add: passDiagnostics_def readConfig_def demo_defs)

lemma demo_options:
  "passOptions errProgram st = demoOptions"
  "passOptions okProgram st = demoOptions"
  "passOptions libProgram st = demoOptions"
  by (simp_all add: passOptions_def readConfig_def demo_defs)

lemma demo_basenames:
  "path_basename ''/tmp/out/main.lua'' = ''main.lua''"
  "path_basename ''/tmp/out/conf.lua'' = ''conf.lua''"
  "path_basename ''/tmp/out/util.lua'' = ''util.lua''"
  "path_basename ''/tmp/out/sub/conf.lua'' = ''conf.lua''"
  by (simp_all add: path_basename_def)

lemma demo_join:
  "path_join ''/tmp/out'' ''conf.lua'' = ''/tmp/out/conf.lua''"
  "path_join ''/tmp/out'' ''lume.lua'' = ''/tmp/out/lume.lua''"
  "path_join ''/tmp/out'' ''lurker.lua'' = ''/tmp/out/lurker.lua''"
  by (simp_all add: path_join_def path_normalize_def normalizeString_def)

subsection \<open>The log and the state of a pass\<close>

lemma emitted_pair: "emitted (n, t) = WriteFile n (Str (wrapped n t))"
  by (simp add: emitted_def)

lemma emitOutputFiles_fst: "fst (emitOutputFiles outs w) = map emitted outs"
  by (induction outs arbitrary: w)
     (auto simp: emitted_def wrapped_def case_prod_unfold Let_def)

lemma emitOutputFiles_snd:
  "snd (emitOutputFiles outs w) = (w \<or> (\<exists>f \<in> set outs. path_basename (fst f) = ''conf.lua''))"
proof (induction outs arbitrary: w)
  case Nil
  show ?case by simp
next
  case (Cons f outs)
  obtain name t where f: "f = (name, t)" by (cases f)
  show ?case
    unfolding f using Cons.IH [of True] Cons.IH [of w]
    by (simp add: case_prod_unfold Let_def)
qed

lemma emitFiles_log:
  "fst (emitFiles host outs opts st) =
     map emitted outs @
     (if \<exists>f \<in> set outs. path_basename (fst f) = ''conf.lua'' then []
      else [WriteFile (path_join (outDir opts) ''conf.lua'') (Str luaConfHead)]) @
     (if \<not> truthy (lumeContent st) \<and> \<not> truthy (lurkerContent st) then shims host opts else [])"
proof -
  obtain es w where e: "emitOutputFiles outs False = (es, w)"
    by (cases "emitOutputFiles outs False")
  from e have "es = map emitted outs"
    using emitOutputFiles_fst [of outs False] by simp
  moreover from e have "w = (\<exists>f \<in> set outs. path_basename (fst f) = ''conf.lua'')"
    using emitOutputFiles_snd [of outs False] by simp
  ultimately show ?thesis
    using e by (simp add: emitFiles_def shims_def)
qed

lemma emitFiles_state:
  "snd (emitFiles host outs opts st) =
     (if \<not> truthy (lumeContent st) \<and> \<not> truthy (lurkerContent st)
      then st\<lparr>lumeContent := lumeFile host, lurkerContent := lurkerFile host\<rparr> else st)"
  by (simp add: emitFiles_def split: prod.splits)

lemma filesAfter_append: "filesAfter (a @ b) fs = filesAfter b (filesAfter a fs)"
proof (induction a arbitrary: fs)
  case Nil
  show ?case by simp
next
  case (Cons e es)
  show ?case
  proof (cases e)
    case (WriteFile p d)
    then show ?thesis by (simp add: Cons.IH del: fun_upd_apply)
  qed (simp_all add: Cons.IH)
qed

lemma filesAfter_untouched:
  "(\<And>d. WriteFile p d \<notin> set es) \<Longrightarrow> filesAfter es fs p = fs p"
proof (induction es arbitrary: fs)
  case Nil
  show ?case by simp
next
  case (Cons e es)
  show ?case
  proof (cases e)
    case (WriteFile q d)
    then have "q \<noteq> p" using Cons.prems [of d] by auto
    have "filesAfter es (fs(q \<mapsto> d)) p = (fs(q \<mapsto> d)) p"
      by (rule Cons.IH) (use Cons.prems in auto)
    then show ?thesis
      using WriteFile \<open>q \<noteq> p\<close> by simp
  qed (use Cons in simp_all)
qed

lemma filesAfter_emitted:
  assumes "name \<in> fst ` set outs"
  shows "\<exists>t. (name, t) \<in> set outs \<and>
             filesAfter (map emitted outs) fs name = Some (Str (wrapped name t))"
  using assms
proof (induction outs arbitrary: fs)
  case Nil
  then show ?case by simp
next
  case (Cons f outs)
  obtain n t where f: "f = (n, t)" by (cases f)
  show ?case
  proof (cases "name \<in> fst ` set outs")
    case True
    from Cons.IH [OF True, of "fs(n \<mapsto> Str (wrapped n t))"]
    show ?thesis by (auto simp: f emitted_pair simp del: fun_upd_apply)
  next
    case False
    with Cons.prems f have n: "n = name" by auto
    have "\<And>d. WriteFile name d \<notin> set (map emitted outs)"
      using False by (force simp: emitted_pair)
    then have "filesAfter (map emitted outs) (fs(n \<mapsto> Str (wrapped n t))) name =
               (fs(n \<mapsto> Str (wrapped n t))) name"
      by (rule filesAfter_untouched)
    then have "filesAfter (map emitted (f # outs)) fs name = Some (Str (wrapped name t))"
      by (simp add: f n emitted_pair)
    then show ?thesis using f n by auto
  qed
qed

lemma filesAfter_filter: "filesAfter (filter isWrite es) fs = filesAfter es fs"
proof (induction es arbitrary: fs)
  case Nil
  show ?case by simp
next
  case (Cons e es)
  show ?case by (cases e) (simp_all add: Cons.IH del: fun_upd_apply)
qed

lemma afterProgramCreate_log:
  "fst (afterProgramCreate host ote bp st) =
     Transpile (passSourceFiles bp st) #
     fst (emitFiles host (passOutputFiles host bp st) (passOptions bp st) st) @
     map (ReportDiagnostic (reportDiagnostic st)) (passDiagnostics host bp st) @
     WatchStatusChange (shouldBePretty host (Some ote))
       (length (filter (\<lambda>d. category d = Error) (passDiagnostics host bp st))) #
     (if loveIsRunning st then [] else [Spawn ''lovec'' [outDir ote] [Stdin, Stdout, Stderr]])"
  by (simp add: afterProgramCreate_def passOptions_def emitFiles_state createWatchStatusReporter_def
        case_prod_unfold Let_def)

lemma afterProgramCreate_state:
  "snd (afterProgramCreate host ote bp st) =
     (snd (emitFiles host (passOutputFiles host bp st) (passOptions bp st) st))
       \<lparr>fullRecompile := (\<exists>d \<in> set (passDiagnostics host bp st). category d = Error),
        loveIsRunning := True,
        configFileMap := fst (readConfig bp st)\<rparr>"
  by (simp add: afterProgramCreate_def passOptions_def case_prod_unfold Let_def filter_empty_conv)

lemma writes_of_pass:
  "filter isWrite (fst (afterProgramCreate host ote bp st)) =
   filter isWrite (fst (emitFiles host (passOutputFiles host bp st) (passOptions bp st) st))"
  by (simp add: afterProgramCreate_log filter_empty_conv)

lemma files_after_pass:
  "filesAfter (fst (afterProgramCreate host ote bp st)) fs =
   filesAfter (fst (emitFiles host (passOutputFiles host bp st) (passOptions bp st) st)) fs"
  using writes_of_pass [of host ote bp st]
  by (metis filesAfter_filter)

lemma write_in_pass:
  "WriteFile p d \<in> set (fst (afterProgramCreate host ote bp st)) \<longleftrightarrow>
   WriteFile p d \<in> set (fst (emitFiles host (passOutputFiles host bp st) (passOptions bp st) st))"
  by (auto simp: afterProgramCreate_log)

subsection \<open>The boot configuration file\<close>

lemma plain_names:
  "plainName ''conf.lua''" "plainName ''lume.lua''" "plainName ''lurker.lua''"
  by (simp_all add: plainName_def)

lemma basename_fallbacks:
  "path_basename (path_join d ''conf.lua'') = ''conf.lua''"
  "path_basename (path_join d ''lume.lua'') = ''lume.lua''"
  "path_basename (path_join d ''lurker.lua'') = ''lurker.lua''"
  by (simp_all add: basename_join_plain plain_names)

lemma emitFiles_write_cases:
  assumes "WriteFile p d \<in> set (fst (emitFiles host outs opts st))"
  shows "(\<exists>t. (p, t) \<in> set outs \<and> d = Str (wrapped p t))
       \<or> (p = path_join (outDir opts) ''conf.lua'' \<and> d = Str luaConfHead)
       \<or> (p = path_join (outDir opts) ''lume.lua'' \<and> d = lumeFile host)
       \<or> (p = path_join (outDir opts) ''lurker.lua'' \<and> d = lurkerFile host)"
proof -
  from assms consider
      (out) "WriteFile p d \<in> set (map emitted outs)"
    | (conf) "WriteFile p d = WriteFile (path_join (outDir opts) ''conf.lua'') (Str luaConfHead)"
    | (shim) "WriteFile p d \<in> set (shims host opts)"
    by (auto simp: emitFiles_log split: if_splits)
  then show ?thesis
  proof cases
    case out
    then obtain f where "f \<in> set outs" "emitted f = WriteFile p d" by auto
    then have "(p, snd f) \<in> set outs" "d = Str (wrapped p (snd f))"
      by (auto simp: emitted_def)
    then show ?thesis by blast
  next
    case conf
    then show ?thesis by simp
  next
    case shim
    then show ?thesis by (auto simp: shims_def)
  qed
qed

lemma filesAfter_shims:
  assumes "path_basename p \<noteq> ''lume.lua''" "path_basename p \<noteq> ''lurker.lua''"
  shows "filesAfter (shims host opts) fs p = fs p"
proof (rule filesAfter_untouched)
  fix d
  show "WriteFile p d \<notin> set (shims host opts)"
    using assms basename_fallbacks by (auto simp: shims_def)
qed

lemma emitFiles_files_at:
  assumes "path_basename p \<noteq> ''lume.lua''" "path_basename p \<noteq> ''lurker.lua''"
  shows "filesAfter (fst (emitFiles host outs opts st)) fs p =
         (if (\<forall>f \<in> set outs. path_basename (fst f) \<noteq> ''conf.lua'') \<and> p = path_join (outDir opts) ''conf.lua''
          then Some (Str luaConfHead)
          else filesAfter (map emitted outs) fs p)"
  using assms
  by (auto simp: emitFiles_log filesAfter_append filesAfter_shims basename_fallbacks)

text \<open>
  What holds of \<^verbatim>\<open>conf.lua\<close> after a pass, whatever the files and the state were before
  it, when files are told apart by base name as the \<^verbatim>\<open>switch\<close> of \<^verbatim>\<open>emitFiles\<close> does: some
  file of that base name starts with the head block; every output file of the pass with
  that base name holds the head block, a newline and a text the pass gave under that name;
  when the pass has no such output file, \<^verbatim>\<open>conf.lua\<close> in the output directory holds the
  head block alone; and when \<^verbatim>\<open>conf.lua\<close> in the output directory is itself among the
  output files, it holds the head block followed by user text.
\<close>

lemma conf_lua_by_base_name:
  "(\<exists>p c. path_basename p = ''conf.lua'' \<and>
          filesAfter (fst (afterProgramCreate host ote bp st)) fs p = Some (Str c) \<and>
          prefix luaConfHead c) \<and>
   (\<forall>f \<in> set (passOutputFiles host bp st).
      path_basename (fst f) = ''conf.lua'' \<longrightarrow>
      (\<exists>t. (fst f, t) \<in> set (passOutputFiles host bp st) \<and>
           filesAfter (fst (afterProgramCreate host ote bp st)) fs (fst f) =
             Some (Str (luaConfHead @ ''\<newline>'' @ t)))) \<and>
   ((\<forall>f \<in> set (passOutputFiles host bp st). path_basename (fst f) \<noteq> ''conf.lua'') \<longrightarrow>
      filesAfter (fst (afterProgramCreate host ote bp st)) fs
        (path_join (outDir (passOptions bp st)) ''conf.lua'') = Some (Str luaConfHead)) \<and>
   ((path_join (outDir (passOptions bp st)) ''conf.lua'') \<in> fst ` set (passOutputFiles host bp st) \<longrightarrow>
      (\<exists>t. filesAfter (fst (afterProgramCreate host ote bp st)) fs
        (path_join (outDir (passOptions bp st)) ''conf.lua'') = Some (Str (luaConfHead @ ''\<newline>'' @ t))))"
proof -
  let ?outs = "passOutputFiles host bp st"
  let ?fs' = "filesAfter (fst (afterProgramCreate host ote bp st)) fs"
  let ?conf = "path_join (outDir (passOptions bp st)) ''conf.lua''"
  have named: "\<exists>t. (fst f, t) \<in> set ?outs \<and> ?fs' (fst f) = Some (Str (luaConfHead @ ''\<newline>'' @ t))"
    if f: "f \<in> set ?outs" and b: "path_basename (fst f) = ''conf.lua''" for f
  proof -
    have "?fs' (fst f) = filesAfter (map emitted ?outs) fs (fst f)"
      using f b by (auto simp: files_after_pass emitFiles_files_at)
    moreover have "fst f \<in> fst ` set ?outs" using f by simp
    from filesAfter_emitted [OF this, of fs]
    obtain t where "(fst f, t) \<in> set ?outs"
      "filesAfter (map emitted ?outs) fs (fst f) = Some (Str (wrapped (fst f) t))"
      by blast
    ultimately show ?thesis using b by (auto simp: wrapped_def)
  qed
  have none: "?fs' ?conf = Some (Str luaConfHead)"
    if "\<forall>f \<in> set ?outs. path_basename (fst f) \<noteq> ''conf.lua''"
    using that by (simp add: files_after_pass emitFiles_files_at basename_fallbacks)
  have "\<exists>p c. path_basename p = ''conf.lua'' \<and> ?fs' p = Some (Str c) \<and> prefix luaConfHead c"
  proof (cases "\<forall>f \<in> set ?outs. path_basename (fst f) \<noteq> ''conf.lua''")
    case True
    from none [OF True] show ?thesis
      using basename_fallbacks(1) by blast
  next
    case False
    then obtain f where f: "f \<in> set ?outs" "path_basename (fst f) = ''conf.lua''" by blast
    from named [OF this] obtain t where
      "?fs' (fst f) = Some (Str (luaConfHead @ ''\<newline>'' @ t))" by blast
    with f(2) show ?thesis by (metis prefixI)
  qed
  moreover have "\<exists>t. ?fs' ?conf = Some (Str (luaConfHead @ ''\<newline>'' @ t))"
    if "?conf \<in> fst ` set ?outs"
  proof -
    from that obtain f where f: "f \<in> set ?outs" "fst f = ?conf" by auto
    then have "path_basename (fst f) = ''conf.lua''"
      by (simp add: basename_fallbacks)
    from named [OF f(1) this] f(2) show ?thesis by auto
  qed
  ultimately show ?thesis using named none by blast
qed

lemma conf_lua_by_base_name_example:
  "(''/tmp/out/conf.lua'', ''x = 1'') \<in> set (passOutputFiles demoHost okProgram initialState) \<and>
   path_basename ''/tmp/out/conf.lua'' = ''conf.lua'' \<and>
   filesAfter (fst (afterProgramCreate demoHost demoOptions okProgram initialState)) Map.empty
     ''/tmp/out/conf.lua'' = Some (Str (luaConfHead @ ''\<newline>'' @ ''x = 1'')) \<and>
   passOutputFiles demoHost errProgram initialState = [(''/tmp/out/main.lua'', ''print(1)'')] \<and>
   path_basename ''/tmp/out/main.lua'' \<noteq> ''conf.lua'' \<and>
   filesAfter (fst (afterProgramCreate demoHost demoOptions errProgram initialState)) Map.empty
     ''/tmp/out/conf.lua'' = Some (Str luaConfHead)"
proof -
  note T1 = conf_lua_by_base_name [of demoHost demoOptions okProgram initialState Map.empty]
  note T2 = conf_lua_by_base_name [of demoHost demoOptions errProgram initialState Map.empty]
  have a: "(''/tmp/out/conf.lua'', ''x = 1'') \<in> set (passOutputFiles demoHost okProgram initialState)"
    by (simp add: demo_outputs)
  have n: "path_basename ''/tmp/out/conf.lua'' = ''conf.lua''"
    by (rule demo_basenames)
  have b: "\<forall>f \<in> set (passOutputFiles demoHost errProgram initialState). path_basename (fst f) \<noteq> ''conf.lua''"
    by (simp add: demo_outputs demo_basenames)
  have "path_basename (fst (''/tmp/out/conf.lua'', ''x = 1'')) = ''conf.lua'' \<longrightarrow>
        (\<exists>t. (fst (''/tmp/out/conf.lua'', ''x = 1''), t) \<in> set (passOutputFiles demoHost okProgram initialState) \<and>
           filesAfter (fst (afterProgramCreate demoHost demoOptions okProgram initialState)) Map.empty
             (fst (''/tmp/out/conf.lua'', ''x = 1'')) = Some (Str (luaConfHead @ ''\<newline>'' @ t)))"
    by (rule T1 [THEN conjunct2, THEN conjunct1, THEN bspec, OF a])
  with n obtain t where
    t: "(''/tmp/out/conf.lua'', t) \<in> set (passOutputFiles demoHost okProgram initialState)"
      "filesAfter (fst (afterProgramCreate demoHost demoOptions okProgram initialState)) Map.empty
             ''/tmp/out/conf.lua'' = Some (Str (luaConfHead @ ''\<newline>'' @ t))"
    by (simp only: fst_conv) blast
  from t(1) have "t = ''x = 1''"
    by (simp add: demo_outputs)
  with t(2) have c: "filesAfter (fst (afterProgramCreate demoHost demoOptions okProgram initialState)) Map.empty
     ''/tmp/out/conf.lua'' = Some (Str (luaConfHead @ ''\<newline>'' @ ''x = 1''))"
    by (simp only:)
  have "filesAfter (fst (afterProgramCreate demoHost demoOptions errProgram initialState)) Map.empty
     (path_join (outDir (passOptions errProgram initialState)) ''conf.lua'') = Some (Str luaConfHead)"
    by (rule T2 [THEN conjunct2, THEN conjunct2, THEN conjunct1, THEN mp]) (rule b)
  then have d: "filesAfter (fst (afterProgramCreate demoHost demoOptions errProgram initialState)) Map.empty
     ''/tmp/out/conf.lua'' = Some (Str luaConfHead)"
    by (simp only: demo_options demo_join demoOptions_def CompilerOptions.simps)
  have e: "passOutputFiles demoHost errProgram initialState = [(''/tmp/out/main.lua'', ''print(1)'')]"
    by (rule demo_outputs)
  have f: "path_basename ''/tmp/out/main.lua'' \<noteq> ''conf.lua''"
    by (simp add: demo_basenames)
  from a n c e f d show ?thesis by (intro conjI)
qed

text \<open>
  Claim C2 says that after every pass the output directory holds \<^verbatim>\<open>conf.lua\<close> with the
  head block at its start. \<^verbatim>\<open>emitFiles\<close> sets \<^verbatim>\<open>wroteConf\<close> for any output file whose base name
  is \<^verbatim>\<open>conf.lua\<close>, also one in a subdirectory, and then skips the fallback. In a session
  whose first pass emits \<^verbatim>\<open>util.lua\<close> and \<^verbatim>\<open>sub/conf.lua\<close>, the head block goes into
  \<^verbatim>\<open>sub/conf.lua\<close>, the pass makes four writes of which none is to \<^verbatim>\<open>conf.lua\<close> in the
  output directory, and that file does not exist after the pass.
\<close>

theorem conf_lua_missing_beside_nested_conf:
  "watchSession demoHost demoOptions [libProgram] ! 0 =
     fst (afterProgramCreate demoHost demoOptions libProgram initialState) \<and>
   passOutputFiles demoHost libProgram initialState =
     [(''/tmp/out/util.lua'', ''return {}''), (''/tmp/out/sub/conf.lua'', ''y = 2'')] \<and>
   path_basename ''/tmp/out/sub/conf.lua'' = ''conf.lua'' \<and>
   path_join (outDir (passOptions libProgram initialState)) ''conf.lua'' = ''/tmp/out/conf.lua'' \<and>
   filter isWrite (watchSession demoHost demoOptions [libProgram] ! 0) =
     [WriteFile ''/tmp/out/util.lua'' (Str ''return {}''),
      WriteFile ''/tmp/out/sub/conf.lua'' (Str (luaConfHead @ ''\<newline>'' @ ''y = 2'')),
      WriteFile ''/tmp/out/lume.lua'' (Str ''-- lume''),
      WriteFile ''/tmp/out/lurker.lua'' (Str ''-- lurker'')] \<and>
   filesAfter (watchSession demoHost demoOptions [libProgram] ! 0) Map.empty ''/tmp/out/conf.lua'' = None"
proof -
  have s: "watchSession demoHost demoOptions [libProgram] ! 0 =
           fst (afterProgramCreate demoHost demoOptions libProgram initialState)"
    by (simp add: watchSession_def case_prod_unfold Let_def)
  have o: "passOutputFiles demoHost libProgram initialState =
     [(''/tmp/out/util.lua'', ''return {}''), (''/tmp/out/sub/conf.lua'', ''y = 2'')]"
    by (rule demo_outputs)
  have b: "path_basename ''/tmp/out/sub/conf.lua'' = ''conf.lua''"
    by (rule demo_basenames)
  have j: "path_join (outDir (passOptions libProgram initialState)) ''conf.lua'' = ''/tmp/out/conf.lua''"
    by (simp add: demo_options demo_join demoOptions_def)
  have l: "\<not> truthy (lumeContent initialState) \<and> \<not> truthy (lurkerContent initialState)"
    by (simp add: initialState_def)
  have h: "lumeFile demoHost = Str ''-- lume''" "lurkerFile demoHost = Str ''-- lurker''"
    by (simp_all add: demoHost_def)
  have w: "filter isWrite (fst (afterProgramCreate demoHost demoOptions libProgram initialState)) =
     [WriteFile ''/tmp/out/util.lua'' (Str ''return {}''),
      WriteFile ''/tmp/out/sub/conf.lua'' (Str (luaConfHead @ ''\<newline>'' @ ''y = 2'')),
      WriteFile ''/tmp/out/lume.lua'' (Str ''-- lume''),
      WriteFile ''/tmp/out/lurker.lua'' (Str ''-- lurker'')]"
    using l h
    by (simp add: writes_of_pass emitFiles_log o demo_basenames emitted_pair wrapped_def shims_def
          demo_options demo_join demoOptions_def)
  have "filesAfter (fst (afterProgramCreate demoHost demoOptions libProgram initialState)) Map.empty
          ''/tmp/out/conf.lua'' =
        filesAfter (filter isWrite (fst (afterProgramCreate demoHost demoOptions libProgram initialState)))
          Map.empty ''/tmp/out/conf.lua''"
    by (simp only: filesAfter_filter)
  then have f: "filesAfter (fst (afterProgramCreate demoHost demoOptions libProgram initialState)) Map.empty
          ''/tmp/out/conf.lua'' = None"
    unfolding w by simp
  from s o b j w f show ?thesis by (simp only:)
qed

lemma main_lua_written:
  "(\<forall>p d. WriteFile p d \<in> set (fst (afterProgramCreate host ote bp st)) \<and>
          path_basename p = ''main.lua'' \<longrightarrow>
          (\<exists>t. (p, t) \<in> set (passOutputFiles host bp st) \<and> d = Str (t @ ''\<newline>'' @ luaMainTail))) \<and>
   (\<forall>name t. (name, t) \<in> set (passOutputFiles host bp st) \<and> path_basename name = ''main.lua'' \<and>
          (\<forall>t'. (name, t') \<in> set (passOutputFiles host bp st) \<longrightarrow> t' = t) \<longrightarrow>
          filesAfter (fst (afterProgramCreate host ote bp st)) fs name =
            Some (Str (t @ ''\<newline>'' @ luaMainTail)))"
proof (intro conjI allI impI)
  fix p d
  assume a: "WriteFile p d \<in> set (fst (afterProgramCreate host ote bp st)) \<and> path_basename p = ''main.lua''"
  then have "WriteFile p d \<in> set (fst (emitFiles host (passOutputFiles host bp st) (passOptions bp st) st))"
    by (simp add: write_in_pass)
  from emitFiles_write_cases [OF this] a
  show "\<exists>t. (p, t) \<in> set (passOutputFiles host bp st) \<and> d = Str (t @ ''\<newline>'' @ luaMainTail)"
    by (auto simp: basename_fallbacks wrapped_def)
next
  fix name t
  let ?outs = "passOutputFiles host bp st"
  assume a: "(name, t) \<in> set ?outs \<and> path_basename name = ''main.lua'' \<and>
             (\<forall>t'. (name, t') \<in> set ?outs \<longrightarrow> t' = t)"
  then have ne: "name \<noteq> path_join (outDir (passOptions bp st)) ''conf.lua''"
    using basename_fallbacks(1) [of "outDir (passOptions bp st)"] by auto
  have "filesAfter (fst (afterProgramCreate host ote bp st)) fs name =
        filesAfter (map emitted ?outs) fs name"
    using a ne by (simp add: files_after_pass emitFiles_files_at)
  moreover have "name \<in> fst ` set ?outs" using a by force
  from filesAfter_emitted [OF this, of fs]
  obtain t' where "(name, t') \<in> set ?outs"
    "filesAfter (map emitted ?outs) fs name = Some (Str (wrapped name t'))"
    by blast
  ultimately show "filesAfter (fst (afterProgramCreate host ote bp st)) fs name =
            Some (Str (t @ ''\<newline>'' @ luaMainTail))"
    using a by (auto simp: wrapped_def)
qed

subsection \<open>Occurrences of the tail block\<close>

lemma occurrences_short: "length s < length pat \<Longrightarrow> occurrences pat s = 0"
proof (induction s)
  case Nil
  then show ?case by auto
next
  case (Cons c cs)
  then have "\<not> prefix pat (c # cs)"
    by (auto dest: prefix_length_le)
  with Cons show ?case by simp
qed

lemma occurrences_pos: "0 < occurrences m (a @ m @ b)"
proof (induction a)
  case Nil
  show ?case by (cases m; cases b) simp_all
next
  case (Cons x a)
  then show ?case by simp
qed

lemma prefix_through_separator:
  assumes "prefix (c # m @ r) (u @ c # z)" "c \<notin> set m" "u \<noteq> []"
  shows "\<exists>v. u = c # m @ v"
proof -
  from assms(3) obtain x u' where u: "u = x # u'" by (cases u) auto
  from assms(1) obtain w where w: "u @ c # z = (c # m @ r) @ w"
    by (auto simp: prefix_def)
  with u have x: "x = c" and eq: "u' @ c # z = m @ (r @ w)" by auto
  from eq consider (a) v where "u' = m @ v" | (b) v where "m = u' @ v" "v \<noteq> []" "c # z = v @ (r @ w)"
    by (auto simp: append_eq_append_conv2) (metis append_Nil2)
  then show ?thesis
  proof cases
    case a
    with u x show ?thesis by simp
  next
    case b
    then have "hd v = c" by (cases v) auto
    with b have "c \<in> set m" by (cases v) auto
    with assms(2) show ?thesis by simp
  qed
qed

lemma one_copy:
  assumes "c \<notin> set m" "m \<noteq> []" "occurrences m t = 0"
  shows "occurrences (c # m @ r) (t @ c # c # m @ r) = 1"
  using assms(3)
proof (induction t)
  case Nil
  have "\<not> prefix (m @ r) (c # m @ r)"
    using assms(1,2) by (cases m) auto
  moreover have "occurrences (c # m @ r) (m @ r) = 0"
    by (rule occurrences_short) simp
  ultimately show ?case by simp
next
  case (Cons x xs)
  then have xs: "occurrences m xs = 0" by simp
  have "\<not> prefix (c # m @ r) ((x # xs) @ c # c # m @ r)"
  proof
    assume "prefix (c # m @ r) ((x # xs) @ c # c # m @ r)"
    from prefix_through_separator [OF this assms(1)]
    obtain v where "x # xs = c # m @ v" by auto
    then have "x # xs = [c] @ m @ v" by simp
    then have "0 < occurrences m (x # xs)"
      using occurrences_pos [of m "[c]" v] by simp
    with Cons.prems show False by simp
  qed
  with Cons.IH [OF xs] show ?case by simp
qed

lemma tail_shape:
  \<open>luaMainTail = CHR 0x0A # tailMarker @ ''\<newline>function love.update(delta)\<newline>    if oldUpdate then\<newline>        oldUpdate(delta)\<newline>    end\<newline>    require("lurker").update()\<newline>end\<newline>''\<close>
  by (simp add: luaMainTail_def tailMarker_def)

lemma tail_once:
  assumes "occurrences tailMarker t = 0"
  shows "occurrences luaMainTail (t @ ''\<newline>'' @ luaMainTail) = 1"
proof -
  have "CHR 0x0A \<notin> set tailMarker" "tailMarker \<noteq> []"
    by (simp_all add: tailMarker_def)
  from one_copy [OF this assms] show ?thesis
    by (simp add: tail_shape)
qed

text \<open>
  Claim C6. Every write of a pass to a file with base name \<^verbatim>\<open>main.lua\<close> holds the text the
  pass gave for that file, a newline and the tail block. The file's content after the pass
  is that, whatever the file held before the pass, in particular when an earlier pass had
  already written it with its tail block. A text without the line
  \<^verbatim>\<open>local oldUpdate = love.update\<close> followed by a newline and the tail block holds the
  tail block exactly once.
\<close>

theorem main_lua_one_tail:
  "(\<forall>p d. WriteFile p d \<in> set (fst (afterProgramCreate host ote bp st)) \<and>
          path_basename p = ''main.lua'' \<longrightarrow>
          (\<exists>t. (p, t) \<in> set (passOutputFiles host bp st) \<and> d = Str (t @ ''\<newline>'' @ luaMainTail))) \<and>
   (\<forall>name t. (name, t) \<in> set (passOutputFiles host bp st) \<and> path_basename name = ''main.lua'' \<and>
          (\<forall>t'. (name, t') \<in> set (passOutputFiles host bp st) \<longrightarrow> t' = t) \<longrightarrow>
          filesAfter (fst (afterProgramCreate host ote bp st)) fs name =
            Some (Str (t @ ''\<newline>'' @ luaMainTail))) \<and>
   (\<forall>t. occurrences tailMarker t = 0 \<longrightarrow>
          occurrences luaMainTail (t @ ''\<newline>'' @ luaMainTail) = 1)"
  using main_lua_written [of host ote bp st fs] tail_once by blast

theorem main_lua_one_tail_witness:
  "WriteFile ''/tmp/out/main.lua'' (Str (''print(1)'' @ ''\<newline>'' @ luaMainTail))
     \<in> set (fst (afterProgramCreate demoHost demoOptions okProgram initialState)) \<and>
   path_basename ''/tmp/out/main.lua'' = ''main.lua'' \<and>
   passOutputFiles demoHost okProgram initialState =
     [(''/tmp/out/conf.lua'', ''x = 1''), (''/tmp/out/main.lua'', ''print(1)'')] \<and>
   filesAfter (fst (afterProgramCreate demoHost demoOptions okProgram initialState))
     [''/tmp/out/main.lua'' \<mapsto> Str (''print(0)'' @ ''\<newline>'' @ luaMainTail)] ''/tmp/out/main.lua'' =
     Some (Str (''print(1)'' @ ''\<newline>'' @ luaMainTail)) \<and>
   occurrences tailMarker ''print(1)'' = 0 \<and>
   occurrences luaMainTail (''print(1)'' @ ''\<newline>'' @ luaMainTail) = 1"
proof -
  let ?fs = "[''/tmp/out/main.lua'' \<mapsto> Str (''print(0)'' @ ''\<newline>'' @ luaMainTail)]"
  note T = main_lua_one_tail [of demoHost demoOptions okProgram initialState ?fs]
  have w: "WriteFile ''/tmp/out/main.lua'' (Str (''print(1)'' @ ''\<newline>'' @ luaMainTail))
     \<in> set (fst (afterProgramCreate demoHost demoOptions okProgram initialState))"
    by (simp add: afterProgramCreate_log emitFiles_log demo_outputs demo_basenames emitted_pair wrapped_def)
  have b: "path_basename ''/tmp/out/main.lua'' = ''main.lua''"
    by (rule demo_basenames)
  have o1: "(''/tmp/out/main.lua'', ''print(1)'') \<in> set (passOutputFiles demoHost okProgram initialState)"
    by (simp add: demo_outputs)
  have o2: "\<forall>t'. (''/tmp/out/main.lua'', t') \<in> set (passOutputFiles demoHost okProgram initialState) \<longrightarrow>
         t' = ''print(1)''"
    by (simp add: demo_outputs)
  have m: "occurrences tailMarker ''print(1)'' = 0"
    by (simp add: tailMarker_def)
  have f: "filesAfter (fst (afterProgramCreate demoHost demoOptions okProgram initialState)) ?fs
          ''/tmp/out/main.lua'' = Some (Str (''print(1)'' @ ''\<newline>'' @ luaMainTail))"
    by (rule T [THEN conjunct2, THEN conjunct1, rule_format]) (intro conjI o1 o2 b)
  have c: "occurrences luaMainTail (''print(1)'' @ ''\<newline>'' @ luaMainTail) = 1"
    by (rule T [THEN conjunct2, THEN conjunct2, rule_format]) (rule m)
  have o: "passOutputFiles demoHost okProgram initialState =
     [(''/tmp/out/conf.lua'', ''x = 1''), (''/tmp/out/main.lua'', ''print(1)'')]"
    by (rule demo_outputs)
  from w b o f m c show ?thesis by (intro conjI)
qed

subsection \<open>Readings of the log of a pass\<close>

lemma modes_append: "modes (a @ b) = modes a @ modes b"
  by (induction a rule: modes.induct) auto

lemma reported_append: "reported (a @ b) = reported a @ reported b"
  by (induction a rule: reported.induct) auto

lemma summaries_append: "summaries (a @ b) = summaries a @ summaries b"
  by (induction a rule: summaries.induct) auto

lemma transpileCalls_append: "transpileCalls (a @ b) = transpileCalls a @ transpileCalls b"
  by (induction a rule: transpileCalls.induct) auto

lemma readings_emitted:
  "modes (map emitted outs) = []" "reported (map emitted outs) = []"
  "summaries (map emitted outs) = []" "transpileCalls (map emitted outs) = []"
  "filter isSpawn (map emitted outs) = []" "filter isRead (map emitted outs) = []"
  by (induction outs) (auto simp: emitted_def)

lemma readings_reports:
  "modes (map (ReportDiagnostic p) ds) = []" "reported (map (ReportDiagnostic p) ds) = ds"
  "summaries (map (ReportDiagnostic p) ds) = []" "transpileCalls (map (ReportDiagnostic p) ds) = []"
  "filter isSpawn (map (ReportDiagnostic p) ds) = []" "filter isRead (map (ReportDiagnostic p) ds) = []"
  "filter isWrite (map (ReportDiagnostic p) ds) = []" "filter (isWriteNamed n) (map (ReportDiagnostic p) ds) = []"
  by (induction ds) auto

lemma readings_emitFiles:
  "modes (fst (emitFiles host outs opts st)) = []"
  "reported (fst (emitFiles host outs opts st)) = []"
  "summaries (fst (emitFiles host outs opts st)) = []"
  "transpileCalls (fst (emitFiles host outs opts st)) = []"
  "filter isSpawn (fst (emitFiles host outs opts st)) = []"
  by (simp_all add: emitFiles_log modes_append reported_append summaries_append
        transpileCalls_append readings_emitted shims_def)

lemma modes_pass:
  "modes (fst (afterProgramCreate host ote bp st)) = [if fullRecompile st then Full else Incremental]"
  by (simp add: afterProgramCreate_log modes_append readings_emitFiles readings_reports
        passSourceFiles_def)

lemma transpileCalls_pass:
  "transpileCalls (fst (afterProgramCreate host ote bp st)) = [passSourceFiles bp st]"
  by (simp add: afterProgramCreate_log transpileCalls_append readings_emitFiles readings_reports)

lemma reported_pass:
  "reported (fst (afterProgramCreate host ote bp st)) = passDiagnostics host bp st"
  by (simp add: afterProgramCreate_log reported_append readings_emitFiles readings_reports)

lemma summaries_pass:
  "summaries (fst (afterProgramCreate host ote bp st)) =
     [length (filter (\<lambda>d. category d = Error) (passDiagnostics host bp st))]"
  by (simp add: afterProgramCreate_log summaries_append readings_emitFiles readings_reports)

lemma spawns_pass:
  "filter isSpawn (fst (afterProgramCreate host ote bp st)) =
     (if loveIsRunning st then [] else [Spawn ''lovec'' [outDir ote] [Stdin, Stdout, Stderr]])"
  by (simp add: afterProgramCreate_log readings_emitFiles readings_reports)

lemma fullRecompile_after_pass:
  "fullRecompile (snd (afterProgramCreate host ote bp st)) =
     (\<exists>d \<in> set (passDiagnostics host bp st). category d = Error)"
  by (simp add: afterProgramCreate_state)

lemma loveIsRunning_after_pass:
  "loveIsRunning (snd (afterProgramCreate host ote bp st))"
  by (simp add: afterProgramCreate_state)

subsection \<open>Sessions\<close>

lemma runPasses_Cons:
  "runPasses host ote st (bp # bps) =
     fst (afterProgramCreate host ote bp st) #
     runPasses host ote (snd (afterProgramCreate host ote bp st)) bps"
  by (simp add: case_prod_unfold Let_def)

lemma runPasses_length: "length (runPasses host ote st bps) = length bps"
  by (induction bps arbitrary: st) (simp_all add: case_prod_unfold Let_def)

lemma first_mode:
  "bps \<noteq> [] \<Longrightarrow> modes (runPasses host ote st bps ! 0) = [if fullRecompile st then Full else Incremental]"
  by (cases bps) (simp_all add: runPasses_Cons modes_pass del: runPasses.simps)

lemma next_mode:
  "Suc N < length bps \<Longrightarrow>
   modes (runPasses host ote st bps ! Suc N) =
     [if \<exists>d \<in> set (reported (runPasses host ote st bps ! N)). category d = Error
      then Full else Incremental]"
proof (induction N arbitrary: st bps)
  case 0
  then obtain bp rest where bps: "bps = bp # rest" "rest \<noteq> []"
    by (cases bps) auto
  show ?case
    unfolding bps runPasses_Cons
    using first_mode [OF bps(2), of host ote "snd (afterProgramCreate host ote bp st)"]
    by (simp add: fullRecompile_after_pass reported_pass)
next
  case (Suc N)
  then obtain bp rest where bps: "bps = bp # rest" "Suc N < length rest"
    by (cases bps) auto
  show ?case
    unfolding bps runPasses_Cons
    using Suc.IH [OF bps(2), of "snd (afterProgramCreate host ote bp st)"]
    by simp
qed

text \<open>
  Claim C1. The first pass of a session runs in full mode: its only call of the transpiler
  passes no list of source files. Every later pass runs in full mode exactly when the
  diagnostics reported in the pass before it hold one of category \<open>Error\<close>, and in
  incremental mode otherwise.
\<close>

theorem full_mode_after_errors:
  "(bps \<noteq> [] \<longrightarrow> modes (watchSession host ote bps ! 0) = [Full]) \<and>
   (\<forall>N. Suc N < length bps \<longrightarrow>
      modes (watchSession host ote bps ! Suc N) =
        [if \<exists>d \<in> set (reported (watchSession host ote bps ! N)). category d = Error
         then Full else Incremental])"
  using first_mode [of bps host ote initialState] next_mode [of _ bps host ote initialState]
  by (simp add: watchSession_def initialState_def)

theorem full_mode_after_errors_witness:
  "[errProgram, okProgram, okProgram] \<noteq> [] \<and>
   modes (watchSession demoHost demoOptions [errProgram, okProgram, okProgram] ! 0) = [Full] \<and>
   Suc 0 < length [errProgram, okProgram, okProgram] \<and>
   modes (watchSession demoHost demoOptions [errProgram, okProgram, okProgram] ! Suc 0) = [Full] \<and>
   Suc (Suc 0) < length [errProgram, okProgram, okProgram] \<and>
   modes (watchSession demoHost demoOptions [errProgram, okProgram, okProgram] ! Suc (Suc 0)) = [Incremental]"
proof -
  let ?s = "watchSession demoHost demoOptions [errProgram, okProgram, okProgram]"
  have r0: "reported (?s ! 0) = [demoError, demoWarning]"
    by (simp add: watchSession_def runPasses_Cons reported_pass demo_diagnostics del: runPasses.simps)
  have r1: "reported (?s ! Suc 0) = [demoWarning]"
    by (simp add: watchSession_def runPasses_Cons reported_pass demo_diagnostics del: runPasses.simps)
  from full_mode_after_errors [of "[errProgram, okProgram, okProgram]" demoHost demoOptions]
  have "modes (?s ! 0) = [Full]"
    and "\<forall>N. Suc N < 3 \<longrightarrow> modes (?s ! Suc N) =
        [if \<exists>d \<in> set (reported (?s ! N)). category d = Error then Full else Incremental]"
    by simp_all
  then have "modes (?s ! 0) = [Full]"
    and "modes (?s ! Suc 0) = [if \<exists>d \<in> set (reported (?s ! 0)). category d = Error then Full else Incremental]"
    and "modes (?s ! Suc (Suc 0)) = [if \<exists>d \<in> set (reported (?s ! Suc 0)). category d = Error then Full else Incremental]"
    by simp_all
  then show ?thesis
    unfolding r0 r1 by (simp add: demoError_def demoWarning_def)
qed

subsection \<open>Spawning\<close>

lemma spawns_running:
  "loveIsRunning st \<Longrightarrow> filter isSpawn (concat (runPasses host ote st bps)) = []"
proof (induction bps arbitrary: st)
  case Nil
  show ?case by simp
next
  case (Cons bp bps)
  have "filter isSpawn (concat (runPasses host ote (snd (afterProgramCreate host ote bp st)) bps)) = []"
    by (rule Cons.IH) (rule loveIsRunning_after_pass)
  with Cons.prems show ?case
    by (simp add: runPasses_Cons spawns_pass del: runPasses.simps)
qed

lemma spawns_running_nth:
  assumes "loveIsRunning st" "i < length bps"
  shows "filter isSpawn (runPasses host ote st bps ! i) = []"
proof -
  have "runPasses host ote st bps ! i \<in> set (runPasses host ote st bps)"
    using assms(2) by (simp add: runPasses_length)
  then have "set (runPasses host ote st bps ! i) \<subseteq> set (concat (runPasses host ote st bps))"
    by auto
  moreover have "\<forall>e \<in> set (concat (runPasses host ote st bps)). \<not> isSpawn e"
    using spawns_running [OF assms(1), of host ote bps] by (simp only: filter_empty_conv)
  ultimately show ?thesis by (auto simp: filter_empty_conv)
qed

lemma first_pass_ends_with_spawn:
  "\<not> loveIsRunning st \<Longrightarrow>
   \<exists>front. fst (afterProgramCreate host ote bp st) =
            front @ [Spawn ''lovec'' [outDir ote] [Stdin, Stdout, Stderr]] \<and>
          filter isSpawn front = [] \<and>
          filter isWrite front = filter isWrite (fst (afterProgramCreate host ote bp st))"
  by (rule exI [of _ "Transpile (passSourceFiles bp st) #
     fst (emitFiles host (passOutputFiles host bp st) (passOptions bp st) st) @
     map (ReportDiagnostic (reportDiagnostic st)) (passDiagnostics host bp st) @
     [WatchStatusChange (shouldBePretty host (Some ote))
       (length (filter (\<lambda>d. category d = Error) (passDiagnostics host bp st)))]"])
     (simp add: afterProgramCreate_log readings_emitFiles readings_reports)

text \<open>
  Claim C4. In a session of one pass or more, the runtime is spawned once. The call is the
  last host call of the first pass, so it follows all of that pass's writes; it runs
  \<^verbatim>\<open>lovec\<close> with the output directory as its only argument and the three standard streams
  of the host. No later pass spawns anything.
\<close>

theorem runtime_spawned_once:
  "filter isSpawn (concat (watchSession host ote (bp # bps))) =
     [Spawn ''lovec'' [outDir ote] [Stdin, Stdout, Stderr]] \<and>
   (\<exists>front. watchSession host ote (bp # bps) ! 0 =
             front @ [Spawn ''lovec'' [outDir ote] [Stdin, Stdout, Stderr]] \<and>
           filter isSpawn front = [] \<and>
           filter isWrite front = filter isWrite (watchSession host ote (bp # bps) ! 0)) \<and>
   (\<forall>i. 0 < i \<and> i < length (bp # bps) \<longrightarrow>
        filter isSpawn (watchSession host ote (bp # bps) ! i) = [])"
proof (intro conjI allI impI)
  have r: "loveIsRunning (snd (afterProgramCreate host ote bp initialState))"
    by (rule loveIsRunning_after_pass)
  show "filter isSpawn (concat (watchSession host ote (bp # bps))) =
          [Spawn ''lovec'' [outDir ote] [Stdin, Stdout, Stderr]]"
    using spawns_running [OF r, of host ote bps]
    by (simp add: watchSession_def runPasses_Cons spawns_pass initialState_def del: runPasses.simps)
  show "\<exists>front. watchSession host ote (bp # bps) ! 0 =
             front @ [Spawn ''lovec'' [outDir ote] [Stdin, Stdout, Stderr]] \<and>
           filter isSpawn front = [] \<and>
           filter isWrite front = filter isWrite (watchSession host ote (bp # bps) ! 0)"
    using first_pass_ends_with_spawn [of initialState host ote bp]
    by (simp add: watchSession_def runPasses_Cons initialState_def del: runPasses.simps)
  fix i
  assume "0 < i \<and> i < length (bp # bps)"
  then obtain j where j: "i = Suc j" "j < length bps" by (cases i) auto
  show "filter isSpawn (watchSession host ote (bp # bps) ! i) = []"
    using spawns_running_nth [OF r j(2), of host ote]
    by (simp add: watchSession_def runPasses_Cons j del: runPasses.simps)
qed

theorem runtime_spawned_once_witness:
  "filter isSpawn (concat (watchSession demoHost demoOptions (errProgram # [okProgram, okProgram]))) =
     [Spawn ''lovec'' [''/tmp/out''] [Stdin, Stdout, Stderr]] \<and>
   0 < Suc 0 \<and> Suc 0 < length (errProgram # [okProgram, okProgram]) \<and>
   filter isSpawn (watchSession demoHost demoOptions (errProgram # [okProgram, okProgram]) ! Suc 0) = [] \<and>
   filter isSpawn (watchSession demoHost demoOptions (errProgram # [okProgram, okProgram]) ! Suc (Suc 0)) = []"
  using runtime_spawned_once [of demoHost demoOptions errProgram "[okProgram, okProgram]"]
  by (simp add: demoOptions_def)

subsection \<open>The close handler\<close>

lemma childClosed_exits: "childClosed ote c = [Exit 0]"
  by (simp add: childClosed_def)

text \<open>
  Claim C5 says that on the child's termination the output directory is deleted and the
  host then exits with code 0. The handler calls \<^verbatim>\<open>ts.sys.exit(0)\<close> first, which ends the
  process, so the call of \<^verbatim>\<open>rimraf\<close> that follows it is never performed: for a child that
  exits with code 1 the only host call is the exit with code 0.
\<close>

theorem close_handler_skips_rimraf:
  "childClosed demoOptions (Some 1) = [Exit 0] \<and>
   Rimraf (outDir demoOptions) \<notin> set (childClosed demoOptions (Some 1))"
  by (simp add: childClosed_def)

subsection \<open>Affected units\<close>

lemma collectAffected_eq:
  "collectAffected acc queue = acc @ concat (map unitFiles queue)"
proof (induction queue arbitrary: acc)
  case Nil
  show ?case by (subst collectAffected.simps) simp
next
  case (Cons a queue)
  show ?case
    by (subst collectAffected.simps) (cases a; simp add: Cons.IH)
qed

text \<open>
  Claim C7. In incremental mode the transpiler is called once, with the list collected by
  asking the builder for its next affected unit until there is none: a source file
  contributes itself and a program all of its source files, in the order the builder
  gives the units. The files emitted are those the transpiler returns for that list. In
  full mode the call passes no list. In both modes the pass writes nothing but what
  \<^verbatim>\<open>emitFiles\<close> does with those output files.
\<close>

theorem incremental_units:
  "(\<not> fullRecompile st \<longrightarrow>
      transpileCalls (fst (afterProgramCreate host ote bp st)) =
        [Some (concat (map unitFiles (affectedQueue bp)))] \<and>
      passOutputFiles host bp st =
        emitTranspiledFiles host (passOptions bp st)
          (snd (transpile bp (Some (concat (map unitFiles (affectedQueue bp))))))) \<and>
   (fullRecompile st \<longrightarrow>
      transpileCalls (fst (afterProgramCreate host ote bp st)) = [None] \<and>
      passOutputFiles host bp st =
        emitTranspiledFiles host (passOptions bp st) (snd (transpile bp None))) \<and>
   filter isWrite (fst (afterProgramCreate host ote bp st)) =
     filter isWrite (fst (emitFiles host (passOutputFiles host bp st) (passOptions bp st) st))"
  by (simp add: transpileCalls_pass passSourceFiles_def collectAffected_eq passOutputFiles_def
        passOptions_def writes_of_pass case_prod_unfold Let_def)

theorem incremental_units_witness:
  "\<not> fullRecompile (initialState\<lparr>fullRecompile := False\<rparr>) \<and>
   transpileCalls (fst (afterProgramCreate demoHost demoOptions errProgram (initialState\<lparr>fullRecompile := False\<rparr>))) =
     [Some [''main.ts'', ''a.ts'', ''b.ts'']] \<and>
   fullRecompile initialState \<and>
   transpileCalls (fst (afterProgramCreate demoHost demoOptions errProgram initialState)) = [None]"
  using incremental_units [of "initialState\<lparr>fullRecompile := False\<rparr>" demoHost demoOptions errProgram]
    incremental_units [of initialState demoHost demoOptions errProgram]
  by (simp add: initialState_def errProgram_def)

subsection \<open>Diagnostics\<close>

text \<open>
  Claim C8. The diagnostics reported in a pass are \<^verbatim>\<open>sortAndDeduplicateDiagnostics\<close> of the
  configuration, option, syntactic, global, semantic and emit diagnostics, appended in
  that order. One summary follows them in the log; its count is the number of reported
  diagnostics of category \<open>Error\<close>, and the next pass is a full one exactly when that
  count is positive.
\<close>

theorem diagnostics_and_summary:
  "reported (fst (afterProgramCreate host ote bp st)) =
     sortAndDeduplicateDiagnostics host
       (configFileParsingDiagnostics bp st @ optionsDiagnostics bp @ syntacticDiagnostics bp @
        globalDiagnostics bp @ semanticDiagnostics bp @
        fst (transpile bp (passSourceFiles bp st))) \<and>
   summaries (fst (afterProgramCreate host ote bp st)) =
     [length (filter (\<lambda>d. category d = Error) (reported (fst (afterProgramCreate host ote bp st))))] \<and>
   (\<exists>before p after.
      fst (afterProgramCreate host ote bp st) =
        before @ map (ReportDiagnostic p) (reported (fst (afterProgramCreate host ote bp st))) @
        WatchStatusChange (shouldBePretty host (Some ote))
          (length (filter (\<lambda>d. category d = Error) (reported (fst (afterProgramCreate host ote bp st))))) #
        after \<and>
      reported before = [] \<and> summaries before = [] \<and> reported after = [] \<and> summaries after = []) \<and>
   fullRecompile (snd (afterProgramCreate host ote bp st)) =
     (0 < length (filter (\<lambda>d. category d = Error) (reported (fst (afterProgramCreate host ote bp st)))))"
proof (intro conjI)
  let ?log = "fst (afterProgramCreate host ote bp st)"
  show "reported ?log =
     sortAndDeduplicateDiagnostics host
       (configFileParsingDiagnostics bp st @ optionsDiagnostics bp @ syntacticDiagnostics bp @
        globalDiagnostics bp @ semanticDiagnostics bp @
        fst (transpile bp (passSourceFiles bp st)))"
    by (simp add: reported_pass passDiagnostics_def configFileParsingDiagnostics_def
          case_prod_unfold Let_def)
  show "summaries ?log = [length (filter (\<lambda>d. category d = Error) (reported ?log))]"
    by (simp add: reported_pass summaries_pass)
  show "\<exists>before p after.
      ?log = before @ map (ReportDiagnostic p) (reported ?log) @
        WatchStatusChange (shouldBePretty host (Some ote))
          (length (filter (\<lambda>d. category d = Error) (reported ?log))) # after \<and>
      reported before = [] \<and> summaries before = [] \<and> reported after = [] \<and> summaries after = []"
    apply (rule exI [of _ "Transpile (passSourceFiles bp st) #
       fst (emitFiles host (passOutputFiles host bp st) (passOptions bp st) st)"])
    apply (rule exI [of _ "reportDiagnostic st"])
    apply (rule exI [of _ "if loveIsRunning st then []
                           else [Spawn ''lovec'' [outDir ote] [Stdin, Stdout, Stderr]]"])
    apply (simp add: reported_pass readings_emitFiles)
    apply (simp add: afterProgramCreate_log)
    done
  show "fullRecompile (snd (afterProgramCreate host ote bp st)) =
     (0 < length (filter (\<lambda>d. category d = Error) (reported ?log)))"
    by (simp add: fullRecompile_after_pass reported_pass filter_empty_conv)
qed

theorem diagnostics_and_summary_witness:
  "reported (fst (afterProgramCreate demoHost demoOptions errProgram initialState)) = [demoError, demoWarning] \<and>
   summaries (fst (afterProgramCreate demoHost demoOptions errProgram initialState)) = [1] \<and>
   fullRecompile (snd (afterProgramCreate demoHost demoOptions errProgram initialState))"
proof -
  have t: "passSourceFiles errProgram initialState = None"
    by (simp add: passSourceFiles_def initialState_def)
  have c: "configFileParsingDiagnostics errProgram initialState = []"
    by (simp add: configFileParsingDiagnostics_def readConfig_def errProgram_def demoOptions_def)
  have r: "reported (fst (afterProgramCreate demoHost demoOptions errProgram initialState)) = [demoError, demoWarning]"
    using diagnostics_and_summary [of demoHost demoOptions errProgram initialState]
    unfolding t c by (simp add: errProgram_def demoHost_def demoError_def demoWarning_def)
  from diagnostics_and_summary [of demoHost demoOptions errProgram initialState]
  show ?thesis unfolding r by (simp add: demoError_def demoWarning_def)
qed

subsection \<open>Runtime support files\<close>

lemma loaded_after_emitFiles:
  "loaded (snd (emitFiles host outs opts st)) =
     (loaded st \<or> truthy (lumeFile host) \<or> truthy (lurkerFile host))"
  by (auto simp: emitFiles_state loaded_def)

lemma loaded_after_pass:
  "loaded (snd (afterProgramCreate host ote bp st)) =
     (loaded st \<or> truthy (lumeFile host) \<or> truthy (lurkerFile host))"
  using loaded_after_emitFiles [of host "passOutputFiles host bp st" "passOptions bp st" st]
  by (simp add: afterProgramCreate_state loaded_def)

lemma reads_pass:
  "filter isRead (fst (afterProgramCreate host ote bp st)) =
     (if loaded st then [] else [ReadFile (lumePath host), ReadFile (lurkerPath host)])"
  by (simp add: afterProgramCreate_log emitFiles_log readings_emitted readings_reports
        shims_def loaded_def)

lemma named_writes_emitted:
  "\<forall>f \<in> set outs. path_basename (fst f) \<noteq> n \<Longrightarrow> filter (isWriteNamed n) (map emitted outs) = []"
  by (induction outs) (auto simp: emitted_def)

lemma named_writes_pass:
  assumes "\<forall>f \<in> set (passOutputFiles host bp st). path_basename (fst f) \<noteq> n"
  shows "filter (isWriteNamed n) (fst (afterProgramCreate host ote bp st)) =
     (if n = ''conf.lua''
      then [WriteFile (path_join (outDir (passOptions bp st)) ''conf.lua'') (Str luaConfHead)]
      else []) @
     (if loaded st then []
      else (if n = ''lume.lua''
            then [WriteFile (path_join (outDir (passOptions bp st)) ''lume.lua'') (lumeFile host)]
            else []) @
           (if n = ''lurker.lua''
            then [WriteFile (path_join (outDir (passOptions bp st)) ''lurker.lua'') (lurkerFile host)]
            else []))"
proof -
  have "\<forall>f \<in> set (passOutputFiles host bp st). path_basename (fst f) \<noteq> ''conf.lua''"
    if "n = ''conf.lua''"
    using assms that by simp
  then show ?thesis
    using named_writes_emitted [OF assms]
    by (auto simp: afterProgramCreate_log emitFiles_log readings_reports shims_def loaded_def
          basename_fallbacks)
qed

lemma reads_loaded:
  "loaded st \<Longrightarrow> filter isRead (concat (runPasses host ote st bps)) = []"
proof (induction bps arbitrary: st)
  case Nil
  show ?case by simp
next
  case (Cons bp bps)
  have "filter isRead (concat (runPasses host ote (snd (afterProgramCreate host ote bp st)) bps)) = []"
    by (rule Cons.IH) (simp add: loaded_after_pass Cons.prems)
  with Cons.prems show ?case
    by (simp add: runPasses_Cons reads_pass del: runPasses.simps)
qed

lemma named_writes_loaded:
  assumes "loaded st" "n \<noteq> ''conf.lua''"
    "\<forall>b \<in> set bps. \<forall>sf os. \<forall>f \<in> set (emitTranspiledFiles host os (snd (transpile b sf))).
       path_basename (fst f) \<noteq> n"
  shows "filter (isWriteNamed n) (concat (runPasses host ote st bps)) = []"
  using assms(1,3)
proof (induction bps arbitrary: st)
  case Nil
  show ?case by simp
next
  case (Cons bp bps)
  have outs: "\<forall>f \<in> set (passOutputFiles host bp st). path_basename (fst f) \<noteq> n"
    using Cons.prems(2) by (simp add: passOutputFiles_def case_prod_unfold Let_def)
  have "filter (isWriteNamed n)
          (concat (runPasses host ote (snd (afterProgramCreate host ote bp st)) bps)) = []"
    by (rule Cons.IH) (use Cons.prems in \<open>simp_all add: loaded_after_pass\<close>)
  with Cons.prems(1) assms(2) show ?case
    by (simp add: runPasses_Cons named_writes_pass [OF outs] del: runPasses.simps)
qed

text \<open>
  Claim C3. In a session of one pass or more, the bundled files are read once, in the
  first pass, and when the transpiler emits no file named \<^verbatim>\<open>lume.lua\<close> or \<^verbatim>\<open>lurker.lua\<close> of
  its own, the whole session writes each of the two names once, into the output directory
  of the first pass, with the bundled content. The guard of \<^verbatim>\<open>emitFiles\<close> tests the module
  variables that hold the two contents, so this needs one of the bundled files to be read
  as a non-empty string.
\<close>

theorem support_files_copied_once:
  assumes "truthy (lumeFile host) \<or> truthy (lurkerFile host)"
  shows "filter isRead (concat (watchSession host ote (bp # bps))) =
           [ReadFile (lumePath host), ReadFile (lurkerPath host)] \<and>
         ((\<forall>b \<in> set (bp # bps). \<forall>sf os. \<forall>f \<in> set (emitTranspiledFiles host os (snd (transpile b sf))).
             path_basename (fst f) \<noteq> ''lume.lua'' \<and> path_basename (fst f) \<noteq> ''lurker.lua'') \<longrightarrow>
          filter (isWriteNamed ''lume.lua'') (concat (watchSession host ote (bp # bps))) =
            [WriteFile (path_join (outDir (passOptions bp initialState)) ''lume.lua'') (lumeFile host)] \<and>
          filter (isWriteNamed ''lurker.lua'') (concat (watchSession host ote (bp # bps))) =
            [WriteFile (path_join (outDir (passOptions bp initialState)) ''lurker.lua'') (lurkerFile host)])"
proof -
  let ?st = "snd (afterProgramCreate host ote bp initialState)"
  have init: "\<not> loaded initialState"
    by (simp add: loaded_def initialState_def)
  have l: "loaded ?st"
    using assms by (simp add: loaded_after_pass)
  have reads: "filter isRead (concat (watchSession host ote (bp # bps))) =
           [ReadFile (lumePath host), ReadFile (lurkerPath host)]"
    using reads_loaded [OF l, of host ote bps] init
    by (simp add: watchSession_def runPasses_Cons reads_pass del: runPasses.simps)
  have writes: "filter (isWriteNamed n) (concat (watchSession host ote (bp # bps))) =
          (if n = ''lume.lua''
            then [WriteFile (path_join (outDir (passOptions bp initialState)) ''lume.lua'') (lumeFile host)]
            else []) @
           (if n = ''lurker.lua''
            then [WriteFile (path_join (outDir (passOptions bp initialState)) ''lurker.lua'') (lurkerFile host)]
            else [])"
    if n: "n \<noteq> ''conf.lua''"
      and h: "\<forall>b \<in> set (bp # bps). \<forall>sf os. \<forall>f \<in> set (emitTranspiledFiles host os (snd (transpile b sf))).
             path_basename (fst f) \<noteq> n" for n
  proof -
    have outs: "\<forall>f \<in> set (passOutputFiles host bp initialState). path_basename (fst f) \<noteq> n"
      using h by (simp add: passOutputFiles_def case_prod_unfold Let_def)
    have rest: "filter (isWriteNamed n) (concat (runPasses host ote ?st bps)) = []"
      by (rule named_writes_loaded [OF l n]) (use h in simp)
    show ?thesis
      using init n rest
      by (simp add: watchSession_def runPasses_Cons named_writes_pass [OF outs] del: runPasses.simps)
  qed
  show ?thesis
    using reads writes [of "''lume.lua''"] writes [of "''lurker.lua''"]
    by simp
qed

theorem support_files_copied_once_witness:
  "(truthy (lumeFile demoHost) \<or> truthy (lurkerFile demoHost)) \<and>
   filter isRead (concat (watchSession demoHost demoOptions (errProgram # [okProgram, libProgram]))) =
     [ReadFile ''/opt/love-ts/lib/lume.lua'', ReadFile ''/opt/love-ts/lib/lurker.lua''] \<and>
   filter (isWriteNamed ''lume.lua'') (concat (watchSession demoHost demoOptions (errProgram # [okProgram, libProgram]))) =
     [WriteFile ''/tmp/out/lume.lua'' (Str ''-- lume'')] \<and>
   filter (isWriteNamed ''lurker.lua'') (concat (watchSession demoHost demoOptions (errProgram # [okProgram, libProgram]))) =
     [WriteFile ''/tmp/out/lurker.lua'' (Str ''-- lurker'')]"
proof -
  have t: "truthy (lumeFile demoHost) \<or> truthy (lurkerFile demoHost)"
    by (simp add: demoHost_def)
  have b: "path_basename (d @ ''/main.lua'') = ''main.lua''"
      "path_basename (d @ ''/conf.lua'') = ''conf.lua''"
      "path_basename (d @ ''/util.lua'') = ''util.lua''"
      "path_basename (d @ ''/sub/conf.lua'') = ''conf.lua''" for d
    using basename_after_sep [of "''main.lua''" d] basename_after_sep [of "''conf.lua''" d]
      basename_after_sep [of "''util.lua''" d] basename_after_sep [of "''conf.lua''" "d @ ''/sub''"]
    by simp_all
  have n: "\<forall>b \<in> set (errProgram # [okProgram, libProgram]). \<forall>sf os.
      \<forall>f \<in> set (emitTranspiledFiles demoHost os (snd (transpile b sf))).
        path_basename (fst f) \<noteq> ''lume.lua'' \<and> path_basename (fst f) \<noteq> ''lurker.lua''"
    by (simp add: demoHost_def errProgram_def okProgram_def libProgram_def b)
  from support_files_copied_once [OF t, of demoOptions errProgram "[okProgram, libProgram]"] n
  have "filter isRead (concat (watchSession demoHost demoOptions (errProgram # [okProgram, libProgram]))) =
           [ReadFile (lumePath demoHost), ReadFile (lurkerPath demoHost)]"
    and "filter (isWriteNamed ''lume.lua'') (concat (watchSession demoHost demoOptions (errProgram # [okProgram, libProgram]))) =
            [WriteFile (path_join (outDir (passOptions errProgram initialState)) ''lume.lua'') (lumeFile demoHost)]"
    and "filter (isWriteNamed ''lurker.lua'') (concat (watchSession demoHost demoOptions (errProgram # [okProgram, libProgram]))) =
            [WriteFile (path_join (outDir (passOptions errProgram initialState)) ''lurker.lua'') (lurkerFile demoHost)]"
    by blast+
  with t show ?thesis
    by (simp add: demo_options demo_join demoOptions_def demoHost_def)
qed

subsection \<open>The entry point\<close>

text \<open>
  Claim C10. When no output file of a pass has base name \<^verbatim>\<open>main.lua\<close>, the pass writes no
  file with that base name, every write holds a bundled file, the head block, or an output
  text as it is or behind the head block, and every file named \<^verbatim>\<open>main.lua\<close> is left as it
  was (absent if it was absent). The choice is by base name alone: an output file
  \<^verbatim>\<open>main.lua\<close> or \<^verbatim>\<open>conf.lua\<close> in any directory gets the tail or the head block.
\<close>

theorem main_lua_no_fallback:
  "((\<forall>f \<in> set (passOutputFiles host bp st). path_basename (fst f) \<noteq> ''main.lua'') \<longrightarrow>
      (\<forall>p d. WriteFile p d \<in> set (fst (afterProgramCreate host ote bp st)) \<longrightarrow>
          path_basename p \<noteq> ''main.lua'' \<and>
          (d = lumeFile host \<or> d = lurkerFile host \<or> d = Str luaConfHead \<or>
           (\<exists>t. (p, t) \<in> set (passOutputFiles host bp st) \<and>
                (d = Str t \<or> d = Str (luaConfHead @ ''\<newline>'' @ t))))) \<and>
      (\<forall>p. path_basename p = ''main.lua'' \<longrightarrow>
          filesAfter (fst (afterProgramCreate host ote bp st)) fs p = fs p)) \<and>
   (\<forall>dir t. (dir @ ''/main.lua'', t) \<in> set (passOutputFiles host bp st) \<longrightarrow>
      WriteFile (dir @ ''/main.lua'') (Str (t @ ''\<newline>'' @ luaMainTail))
        \<in> set (fst (afterProgramCreate host ote bp st))) \<and>
   (\<forall>dir t. (dir @ ''/conf.lua'', t) \<in> set (passOutputFiles host bp st) \<longrightarrow>
      WriteFile (dir @ ''/conf.lua'') (Str (luaConfHead @ ''\<newline>'' @ t))
        \<in> set (fst (afterProgramCreate host ote bp st)))"
proof (intro conjI allI impI)
  let ?outs = "passOutputFiles host bp st"
  let ?log = "fst (afterProgramCreate host ote bp st)"
  {
    fix p d
    assume no: "\<forall>f \<in> set ?outs. path_basename (fst f) \<noteq> ''main.lua''"
      and w: "WriteFile p d \<in> set ?log"
    from w have "WriteFile p d \<in> set (fst (emitFiles host ?outs (passOptions bp st) st))"
      by (simp add: write_in_pass)
    from emitFiles_write_cases [OF this] no
    show "path_basename p \<noteq> ''main.lua''"
      by (auto simp: basename_fallbacks)
    from emitFiles_write_cases [OF \<open>WriteFile p d \<in> set (fst (emitFiles host ?outs (passOptions bp st) st))\<close>] no
    show "d = lumeFile host \<or> d = lurkerFile host \<or> d = Str luaConfHead \<or>
           (\<exists>t. (p, t) \<in> set ?outs \<and> (d = Str t \<or> d = Str (luaConfHead @ ''\<newline>'' @ t)))"
      by (fastforce simp: wrapped_def)
  }
  {
    fix p
    assume no: "\<forall>f \<in> set ?outs. path_basename (fst f) \<noteq> ''main.lua''"
      and b: "path_basename p = ''main.lua''"
    have "\<And>d. WriteFile p d \<notin> set ?log"
    proof
      fix d
      assume "WriteFile p d \<in> set ?log"
      then have "WriteFile p d \<in> set (fst (emitFiles host ?outs (passOptions bp st) st))"
        by (simp add: write_in_pass)
      from emitFiles_write_cases [OF this] no b
      show False by (auto simp: basename_fallbacks)
    qed
    then show "filesAfter ?log fs p = fs p"
      by (rule filesAfter_untouched)
  }
  {
    fix dir t
    assume "(dir @ ''/main.lua'', t) \<in> set ?outs"
    then have "emitted (dir @ ''/main.lua'', t) \<in> set (map emitted ?outs)"
      unfolding set_map by (rule imageI)
    moreover have "path_basename (dir @ ''/main.lua'') = ''main.lua''"
      using basename_after_sep [of "''main.lua''" dir] by simp
    ultimately show "WriteFile (dir @ ''/main.lua'') (Str (t @ ''\<newline>'' @ luaMainTail)) \<in> set ?log"
      by (simp add: afterProgramCreate_log emitFiles_log emitted_pair wrapped_def)
  }
  {
    fix dir t
    assume "(dir @ ''/conf.lua'', t) \<in> set ?outs"
    then have "emitted (dir @ ''/conf.lua'', t) \<in> set (map emitted ?outs)"
      unfolding set_map by (rule imageI)
    moreover have "path_basename (dir @ ''/conf.lua'') = ''conf.lua''"
      using basename_after_sep [of "''conf.lua''" dir] by simp
    ultimately show "WriteFile (dir @ ''/conf.lua'') (Str (luaConfHead @ ''\<newline>'' @ t)) \<in> set ?log"
      by (simp add: afterProgramCreate_log emitFiles_log emitted_pair wrapped_def)
  }
qed

theorem main_lua_no_fallback_witness:
  "passOutputFiles demoHost libProgram initialState =
     [(''/tmp/out/util.lua'', ''return {}''), (''/tmp/out/sub/conf.lua'', ''y = 2'')] \<and>
   path_basename ''/tmp/out/util.lua'' \<noteq> ''main.lua'' \<and>
   path_basename ''/tmp/out/sub/conf.lua'' \<noteq> ''main.lua'' \<and>
   path_basename ''/tmp/out/main.lua'' = ''main.lua'' \<and>
   filesAfter (fst (afterProgramCreate demoHost demoOptions libProgram initialState)) Map.empty
     ''/tmp/out/main.lua'' = None \<and>
   (''/tmp/out/sub'' @ ''/conf.lua'', ''y = 2'') \<in> set (passOutputFiles demoHost libProgram initialState) \<and>
   WriteFile (''/tmp/out/sub'' @ ''/conf.lua'') (Str (luaConfHead @ ''\<newline>'' @ ''y = 2''))
     \<in> set (fst (afterProgramCreate demoHost demoOptions libProgram initialState)) \<and>
   (''/tmp/out'' @ ''/main.lua'', ''print(1)'') \<in> set (passOutputFiles demoHost okProgram initialState) \<and>
   WriteFile (''/tmp/out'' @ ''/main.lua'') (Str (''print(1)'' @ ''\<newline>'' @ luaMainTail))
     \<in> set (fst (afterProgramCreate demoHost demoOptions okProgram initialState))"
proof -
  have a: "\<forall>f \<in> set (passOutputFiles demoHost libProgram initialState). path_basename (fst f) \<noteq> ''main.lua''"
    by (simp add: demo_outputs demo_basenames)
  have b: "(''/tmp/out/sub'' @ ''/conf.lua'', ''y = 2'') \<in> set (passOutputFiles demoHost libProgram initialState)"
    by (simp add: demo_outputs)
  have c: "(''/tmp/out'' @ ''/main.lua'', ''print(1)'') \<in> set (passOutputFiles demoHost okProgram initialState)"
    by (simp add: demo_outputs)
  from main_lua_no_fallback [of demoHost libProgram initialState demoOptions Map.empty] a
  have "\<forall>p. path_basename p = ''main.lua'' \<longrightarrow>
          filesAfter (fst (afterProgramCreate demoHost demoOptions libProgram initialState)) Map.empty p = Map.empty p"
    by blast
  then have d: "filesAfter (fst (afterProgramCreate demoHost demoOptions libProgram initialState)) Map.empty
     ''/tmp/out/main.lua'' = None"
    by (simp add: demo_basenames)
  from main_lua_no_fallback [of demoHost libProgram initialState demoOptions Map.empty] b
  have e: "WriteFile (''/tmp/out/sub'' @ ''/conf.lua'') (Str (luaConfHead @ ''\<newline>'' @ ''y = 2''))
     \<in> set (fst (afterProgramCreate demoHost demoOptions libProgram initialState))"
    by blast
  from main_lua_no_fallback [of demoHost okProgram initialState demoOptions Map.empty] c
  have f: "WriteFile (''/tmp/out'' @ ''/main.lua'') (Str (''print(1)'' @ ''\<newline>'' @ luaMainTail))
     \<in> set (fst (afterProgramCreate demoHost demoOptions okProgram initialState))"
    by blast
  from b c d e f show ?thesis by (simp add: demo_basenames demo_outputs)
qed

subsection \<open>The diagnostic reporter\<close>

lemma reportDiagnostic_unchanged:
  "reportDiagnostic (snd (afterProgramCreate host ote bp st)) = reportDiagnostic st"
  by (simp add: afterProgramCreate_state emitFiles_state)

lemma reports_of_pass:
  "ReportDiagnostic p d \<in> set (fst (afterProgramCreate host ote bp st)) \<Longrightarrow> p = reportDiagnostic st"
  by (auto simp: afterProgramCreate_log emitFiles_log emitted_def shims_def split: if_splits)

lemma reports_of_passes:
  "es \<in> set (runPasses host ote st bps) \<Longrightarrow> ReportDiagnostic p d \<in> set es \<Longrightarrow> p = reportDiagnostic st"
proof (induction bps arbitrary: st)
  case Nil
  then show ?case by simp
next
  case (Cons bp bps)
  from Cons.prems(1) consider "es = fst (afterProgramCreate host ote bp st)"
    | "es \<in> set (runPasses host ote (snd (afterProgramCreate host ote bp st)) bps)"
    by (auto simp: runPasses_Cons simp del: runPasses.simps)
  then show ?case
  proof cases
    case 1
    with Cons.prems(2) show ?thesis by (auto dest: reports_of_pass)
  next
    case 2
    from Cons.IH [OF 2 Cons.prems(2)] show ?thesis
      by (simp add: reportDiagnostic_unchanged)
  qed
qed

lemma reporter_always_plain:
  "es \<in> set (watchSession host ote bps) \<Longrightarrow> ReportDiagnostic p d \<in> set es \<Longrightarrow> p = False"
  using reports_of_passes [of es host ote initialState bps p d]
  by (simp add: watchSession_def initialState_def)

text \<open>
  Claim C9 says that diagnostics are rendered pretty when \<^verbatim>\<open>shouldBePretty\<close> holds. The
  module's reporter is made with \<^verbatim>\<open>createDiagnosticReporter(false)\<close> and
  \<^verbatim>\<open>updateReportDiagnostic\<close> is never called, so every diagnostic of every session goes
  through the plain reporter: with \<^verbatim>\<open>pretty\<close> set to true on a terminal, where the status
  reporter is the pretty one, the error of the first pass is reported plain.
\<close>

theorem diagnostics_plain_despite_pretty:
  "shouldBePretty demoHost (Some demoOptions) \<and>
   createWatchStatusReporter demoHost (Some demoOptions) \<and>
   reported (watchSession demoHost demoOptions [errProgram] ! 0) = [demoError, demoWarning] \<and>
   ReportDiagnostic False demoError \<in> set (watchSession demoHost demoOptions [errProgram] ! 0) \<and>
   ReportDiagnostic True demoError \<notin> set (watchSession demoHost demoOptions [errProgram] ! 0)"
proof -
  have p: "shouldBePretty demoHost (Some demoOptions)"
    by (simp add: shouldBePretty_def demoOptions_def demoHost_def)
  have s: "watchSession demoHost demoOptions [errProgram] ! 0 =
           fst (afterProgramCreate demoHost demoOptions errProgram initialState)"
    by (simp add: watchSession_def runPasses_Cons del: runPasses.simps)
  have r: "reported (watchSession demoHost demoOptions [errProgram] ! 0) = [demoError, demoWarning]"
    by (simp add: s reported_pass demo_diagnostics)
  have i: "ReportDiagnostic False demoError \<in> set (watchSession demoHost demoOptions [errProgram] ! 0)"
    by (simp add: s afterProgramCreate_log demo_diagnostics initialState_def)
  have "watchSession demoHost demoOptions [errProgram] ! 0 \<in> set (watchSession demoHost demoOptions [errProgram])"
    by (simp add: watchSession_def runPasses_Cons del: runPasses.simps)
  then have n: "ReportDiagnostic True demoError \<notin> set (watchSession demoHost demoOptions [errProgram] ! 0)"
    using reporter_always_plain by blast
  from p r i n show ?thesis by (simp add: createWatchStatusReporter_def)
qed

end
